theory Spec2Isabelle
  imports
    Main
    "HOL-Library.Char_ord"
    "HOL-Library.List_Lexorder"
    "HOL-Library.Multiset"
    "HOL-Library.AList"
    "HOL-Library.Sublist"
begin

section \<open>Strings\<close>

text \<open>
  A JavaScript string is a sequence of code units. It is modelled as a \<open>string\<close>, one
  \<open>char\<close> per code unit, for the code units below 256. The white space of
  \<open>String.prototype.trim\<close> and of the regular expression class \<open>\s\<close> in that range is
  TAB, LF, VT, FF, CR, SPACE and NBSP; the line terminators (what \<open>.\<close> does not match
  and where \<open>^\<close> and \<open>$\<close> match under the \<open>m\<close> flag) are LF and CR.
\<close>

definition is_space :: "char \<Rightarrow> bool" where
  "is_space c = (c \<in> set [CHR 0x09, CHR 0x0A, CHR 0x0B, CHR 0x0C, CHR 0x0D, CHR 0x20, CHR 0xA0])"

definition is_line_terminator :: "char \<Rightarrow> bool" where
  "is_line_terminator c = (c = CHR 0x0A \<or> c = CHR 0x0D)"

text \<open>\<open>\w\<close>: letters, digits and the underscore.\<close>

definition is_word_char :: "char \<Rightarrow> bool" where
  "is_word_char c =
     ((CHR ''a'' \<le> c \<and> c \<le> CHR ''z'') \<or> (CHR ''A'' \<le> c \<and> c \<le> CHR ''Z'')
      \<or> (CHR ''0'' \<le> c \<and> c \<le> CHR ''9'') \<or> c = CHR ''_'')"

text \<open>\<open>s.trim()\<close>\<close>

definition trim :: "string \<Rightarrow> string" where
  "trim s = rev (dropWhile is_space (rev (dropWhile is_space s)))"

text \<open>\<open>s.replace(/\.mdx$/, ".md")\<close>\<close>

definition mdx_to_md :: "string \<Rightarrow> string" where
  "mdx_to_md s = (if suffix ''.mdx'' s then take (length s - 4) s @ ''.md'' else s)"

text \<open>\<open>s.replace(/\.(md|mdx)$/, "")\<close>\<close>

definition strip_md_ext :: "string \<Rightarrow> string" where
  "strip_md_ext s =
     (if suffix ''.md'' s then take (length s - 3) s
      else if suffix ''.mdx'' s then take (length s - 4) s
      else s)"

text \<open>\<open>s.replace(/\//g, "-")\<close>\<close>

definition slashes_to_dashes :: "string \<Rightarrow> string" where
  "slashes_to_dashes s = map (\<lambda>c. if c = CHR ''/'' then CHR ''-'' else c) s"

text \<open>\<open>s.replace(/-+/g, "-")\<close>: every maximal run of dashes becomes one dash.\<close>

fun collapse_dashes :: "string \<Rightarrow> string" where
  "collapse_dashes (a # b # s) =
     (if a = CHR ''-'' \<and> b = CHR ''-'' then collapse_dashes (b # s)
      else a # collapse_dashes (b # s))"
| "collapse_dashes s = s"

text \<open>
  \<open>path.join(a, b)\<close> for relative segments that hold no \<open>.\<close> or \<open>..\<close> component: an
  empty segment is dropped, the others are joined by a slash.
\<close>

definition join :: "string \<Rightarrow> string \<Rightarrow> string" where
  "join a b = (if a = [] then b else if b = [] then a else a @ ''/'' @ b)"

text \<open>\<open>path.split("/").pop() || path\<close>: the text after the last slash, or the whole
  path when that text is empty.\<close>

definition last_segment :: "string \<Rightarrow> string" where
  "last_segment p =
     (let seg = rev (takeWhile (\<lambda>c. c \<noteq> CHR ''/'') (rev p)) in if seg = [] then p else seg)"

section \<open>PathMapper: \<open>pathToFilename\<close>\<close>

text \<open>
  \<open>docPath.replace(/^docs\//, "").replace(/\//g, "-").replace(/-+/g, "-") + ".md"\<close>,
  the same in the xAI script and in the llms.txt templates.
\<close>

definition strip_docs_prefix :: "string \<Rightarrow> string" where
  "strip_docs_prefix p = (if prefix ''docs/'' p then drop 5 p else p)"

definition pathToFilename :: "string \<Rightarrow> string" where
  "pathToFilename docPath =
     collapse_dashes (slashes_to_dashes (strip_docs_prefix docPath)) @ ''.md''"

text \<open>
  The flat output name of the FastMCP copier, for a file \<open>name\<close> found in the directory
  \<open>relPath\<close> below the source directory:
  \<open>relPath ? `${relPath.replace(/\//g, "-")}-${name}`.replace(/\.mdx$/, ".md")
           : name.replace(/\.mdx$/, ".md")\<close>.
\<close>

definition outputName :: "string \<Rightarrow> string \<Rightarrow> string" where
  "outputName relPath name =
     (if relPath \<noteq> [] then mdx_to_md (slashes_to_dashes relPath @ ''-'' @ name)
      else mdx_to_md name)"

section \<open>SectionParser: \<open>parseLlmsTxt\<close>\<close>

text \<open>
  \<open>content.split(/(?====\/)/)\<close>: the separator is the empty match in front of every
  \<open>===/\<close>, so the string is cut at every position, other than its start, where
  \<open>===/\<close> begins. The pieces are never empty, except for the one piece of the empty
  string.
\<close>

definition at_delim :: "string \<Rightarrow> bool" where
  "at_delim s = prefix ''===/'' s"

fun split_sections :: "string \<Rightarrow> string list" where
  "split_sections [] = [[]]"
| "split_sections (c # cs) =
     (if at_delim cs then [c] # split_sections cs
      else (case split_sections cs of
              [] \<Rightarrow> [[c]]
            | s # ss \<Rightarrow> (c # s) # ss))"

text \<open>
  \<open>section.match(/^===\/([^=]+)===/)\<close>: the section starts with \<open>===/\<close>, then comes a
  non-empty run of characters other than \<open>=\<close> (the path, group 1), then \<open>===\<close>. The run
  is greedy and nothing shorter can be followed by \<open>=\<close>, so the path is the maximal run.
\<close>

definition match_header :: "string \<Rightarrow> string option" where
  "match_header s =
     (if prefix ''===/'' s then
        (let r = drop 4 s;
             p = takeWhile (\<lambda>c. c \<noteq> CHR ''='') r;
             t = dropWhile (\<lambda>c. c \<noteq> CHR ''='') r
         in if p \<noteq> [] \<and> prefix ''==='' t then Some p else None)
      else None)"

text \<open>\<open>section.replace(/^===[^=]+===\n?/, "")\<close>: the header and one line feed after it,
  if there is one, are removed; a section without such a header is left as it is.\<close>

definition strip_header :: "string \<Rightarrow> string" where
  "strip_header s =
     (if prefix ''==='' s then
        (let r = drop 3 s;
             p = takeWhile (\<lambda>c. c \<noteq> CHR ''='') r;
             t = dropWhile (\<lambda>c. c \<noteq> CHR ''='') r
         in if p \<noteq> [] \<and> prefix ''==='' t then
              (let u = drop 3 t in if prefix [CHR 0x0A] u then drop 1 u else u)
            else s)
      else s)"

text \<open>One turn of the loop over the sections: the path and the trimmed body of a
  section that has a header and a non-empty body.\<close>

definition parse_section :: "string \<Rightarrow> (string \<times> string) option" where
  "parse_section s =
     (case match_header s of
        None \<Rightarrow> None
      | Some p \<Rightarrow> (let body = trim (strip_header s) in if body \<noteq> [] then Some (p, body) else None))"

text \<open>
  The templates collect the documents in an array (\<open>docs.push({ path, content: body })\<close>):
  a list of pairs, in the order of the sections, duplicates kept.
\<close>

fun parse_loop_tpl :: "string list \<Rightarrow> (string \<times> string) list \<Rightarrow> (string \<times> string) list" where
  "parse_loop_tpl [] docs = docs"
| "parse_loop_tpl (s # ss) docs =
     parse_loop_tpl ss (case parse_section s of None \<Rightarrow> docs | Some d \<Rightarrow> docs @ [d])"

definition parseLlmsTxt_tpl :: "string \<Rightarrow> (string \<times> string) list" where
  "parseLlmsTxt_tpl content = parse_loop_tpl (split_sections content) []"

text \<open>
  The xAI script collects them in a \<open>Map\<close> (\<open>docs.set(path, body)\<close>). A \<open>Map\<close> iterates
  in insertion order and \<open>set\<close> on a key that is present replaces the value in place:
  an association list with \<open>AList.update\<close>.
\<close>

fun parse_loop :: "string list \<Rightarrow> (string \<times> string) list \<Rightarrow> (string \<times> string) list" where
  "parse_loop [] docs = docs"
| "parse_loop (s # ss) docs =
     parse_loop ss (case parse_section s of None \<Rightarrow> docs | Some (p, body) \<Rightarrow> AList.update p body docs)"

definition parseLlmsTxt :: "string \<Rightarrow> (string \<times> string) list" where
  "parseLlmsTxt content = parse_loop (split_sections content) []"

section \<open>Titles\<close>

text \<open>
  \<open>content.match(/^#\s+(.+)$/m)\<close>. At a line start, \<open>#\<close>, then white space (which may
  run over line ends), then the rest of the line, which must not be empty. When the
  white space reaches the end of the string, the matcher gives characters of it back
  to the group, the fewest possible, and the group starts at the last of them that is
  no line terminator.
\<close>

definition title_backtrack :: "string \<Rightarrow> string option" where
  "title_backtrack w =
     (case filter (\<lambda>k. \<not> is_line_terminator (w ! k)) (rev [1..<length w]) of
        [] \<Rightarrow> None
      | k # _ \<Rightarrow> Some (takeWhile (\<lambda>c. \<not> is_line_terminator c) (drop k w)))"

definition title_here :: "string \<Rightarrow> string option" where
  "title_here s =
     (case s of
        [] \<Rightarrow> None
      | c # r \<Rightarrow>
          if c \<noteq> CHR ''#'' then None
          else (let w = takeWhile is_space r; t = dropWhile is_space r in
                if w = [] then None
                else if t \<noteq> [] then Some (takeWhile (\<lambda>c. \<not> is_line_terminator c) t)
                else title_backtrack w))"

fun match_title_from :: "bool \<Rightarrow> string \<Rightarrow> string option" where
  "match_title_from bol [] = None"
| "match_title_from bol (c # cs) =
     (case (if bol then title_here (c # cs) else None) of
        Some t \<Rightarrow> Some t
      | None \<Rightarrow> match_title_from (is_line_terminator c) cs)"

definition match_title :: "string \<Rightarrow> string option" where
  "match_title content = match_title_from True content"

text \<open>\<open>extractTitle(content, path)\<close> of the templates, inlined in the xAI script.\<close>

definition extractTitle :: "string \<Rightarrow> string \<Rightarrow> string" where
  "extractTitle content p = (case match_title content of Some t \<Rightarrow> t | None \<Rightarrow> last_segment p)"

section \<open>Errors, results, manifests and the file system\<close>

text \<open>A thrown \<open>Error\<close> with its message; \<open>FetchFailed url status\<close> is the error of a
  response that is not \<open>ok\<close>. Every \<open>throw\<close> and every failing call of the source is an
  \<open>Inl\<close> of the model.\<close>

datatype error = Error string | FetchFailed string nat

datatype status = Created | Updated | Unchanged | Skipped

text \<open>\<open>interface SyncResult\<close> of the FastMCP, xAI and llms.txt scripts.\<close>

record SyncResult =
  path :: string
  title :: string
  status :: status

text \<open>
  \<open>interface Manifest\<close>; \<open>sourcePath\<close> and \<open>commit\<close> are the fields that only some of
  the scripts write.
\<close>

record Manifest =
  source :: string
  sourcePath :: "string option"
  commit :: "string option"
  syncedAt :: string
  fileCount :: nat
  files :: "string list"

text \<open>
  \<open>createHash("sha256").update(content).digest("hex").slice(0, 12)\<close>. The digest is kept
  symbolic: the value stands for the first twelve hexadecimal digits of the SHA-256
  of the content.
\<close>

datatype digest = Sha256_12 string

definition hashContent :: "string \<Rightarrow> digest" where
  "hashContent content = Sha256_12 content"

text \<open>The manifest of the direct-fetch template: its \<open>files\<close> are \<open>{ path, hash }\<close>
  objects.\<close>

record DirectManifest =
  d_source :: string
  d_syncedAt :: string
  d_fileCount :: nat
  d_files :: "(string \<times> digest) list"

text \<open>
  What a file of the resources directory holds: text, or the \<open>JSON.stringify\<close> of a
  manifest, modelled by the manifest itself.
\<close>

datatype fcontent = Text string | Json Manifest | JsonDirect DirectManifest

text \<open>What stands at a path below the resources directory: a file with what it
  holds, or a directory.\<close>

datatype fnode = FileNode fcontent | DirNode

text \<open>
  What \<open>readdir(dir, { withFileTypes: true })\<close> finds: a regular file with its
  content, a directory with its entries, or something else (a link, a socket) that
  is neither \<open>isDirectory()\<close> nor \<open>isFile()\<close> and that \<open>readFile\<close> may or may not be
  able to read.
\<close>

datatype entry = File string string | Dir string "entry list" | Other string "string option"

fun entry_name :: "entry \<Rightarrow> string" where
  "entry_name (File n c) = n"
| "entry_name (Dir n es) = n"
| "entry_name (Other n c) = n"

text \<open>
  The two directories the scripts touch. \<open>resources\<close> is \<open>RESOURCES_DIR\<close>: \<open>None\<close> when
  the directory does not exist, otherwise the files and the directories below it, by
  their path below it. \<open>temp_dir\<close> is \<open>TEMP_DIR\<close>, the clone: \<open>None\<close> when it does not
  exist.
\<close>

record fs =
  resources :: "(string \<rightharpoonup> fnode) option"
  temp_dir :: "entry list option"

text \<open>\<open>mkdir(RESOURCES_DIR, { recursive: true })\<close>, also when guarded by
  \<open>!existsSync(RESOURCES_DIR)\<close>.\<close>

definition mkdir_resources :: "fs \<Rightarrow> fs" where
  "mkdir_resources s =
     (case resources s of None \<Rightarrow> s\<lparr>resources := Some Map.empty\<rparr> | Some m \<Rightarrow> s)"

text \<open>
  A path below the resources directory is a relative path in normal form: its
  components are separated by single slashes and none of them is empty, \<open>.\<close> or
  \<open>..\<close>, so that \<open>join(RESOURCES_DIR, p)\<close> is the resources directory followed by the
  path as it is. \<open>path.dirname\<close> of such a path is the text in front of the last
  slash, and the empty path (the resources directory itself) when there is no slash.
\<close>

definition dirname :: "string \<Rightarrow> string" where
  "dirname p =
     (let r = dropWhile (\<lambda>c. c \<noteq> CHR ''/'') (rev p) in if r = [] then [] else rev (tl r))"

text \<open>The directories on the way to a directory, from the top: for \<open>a/b/c\<close> they are
  \<open>a\<close>, \<open>a/b\<close> and \<open>a/b/c\<close>.\<close>

definition dir_chain :: "string \<Rightarrow> string list" where
  "dir_chain d =
     (if d = [] then []
      else map (\<lambda>i. take i d) (filter (\<lambda>i. d ! i = CHR ''/'') [1..<length d]) @ [d])"

text \<open>
  \<open>mkdir(join(RESOURCES_DIR, d), { recursive: true })\<close>: the resources directory and
  every directory on the way to \<open>d\<close> is created when it is missing and left alone
  when it is there; the call fails when a file stands where a directory is needed.
\<close>

fun mkdirs :: "string list \<Rightarrow> (string \<rightharpoonup> fnode) \<Rightarrow> error + (string \<rightharpoonup> fnode)" where
  "mkdirs [] m = Inr m"
| "mkdirs (d # ds) m =
     (case m d of
        None \<Rightarrow> mkdirs ds (m(d \<mapsto> DirNode))
      | Some DirNode \<Rightarrow> mkdirs ds m
      | Some (FileNode c) \<Rightarrow> Inl (Error ''EEXIST: file already exists''))"

definition mkdir_p :: "string \<Rightarrow> fs \<Rightarrow> error + fs" where
  "mkdir_p d s =
     (case mkdirs (dir_chain d) (case resources s of None \<Rightarrow> Map.empty | Some m \<Rightarrow> m) of
        Inl e \<Rightarrow> Inl e
      | Inr m' \<Rightarrow> Inr (s\<lparr>resources := Some m'\<rparr>))"

text \<open>
  \<open>writeFile(join(RESOURCES_DIR, name), content)\<close> and \<open>copyFileSync\<close> to such a
  path. They fail when the resources directory or the directory of the path is
  missing, and when a directory stands at the path; a file that stands there is
  overwritten.
\<close>

definition writeFile :: "string \<Rightarrow> fcontent \<Rightarrow> fs \<Rightarrow> error + fs" where
  "writeFile name content s =
     (case resources s of
        None \<Rightarrow> Inl (Error ''ENOENT: no such file or directory'')
      | Some m \<Rightarrow>
          if m name = Some DirNode then
            Inl (Error ''EISDIR: illegal operation on a directory'')
          else if dirname name \<noteq> [] \<and> m (dirname name) \<noteq> Some DirNode then
            Inl (Error ''ENOENT: no such file or directory'')
          else Inr (s\<lparr>resources := Some (m(name \<mapsto> FileNode content))\<rparr>))"

text \<open>What a run of a script leaves: the file system, what \<open>console.error\<close> printed,
  and the exit status of the process.\<close>

record outcome =
  final :: fs
  stderr :: "error list"
  exit_code :: nat

text \<open>A response of \<open>fetch\<close>; \<open>response.ok\<close> is a status from 200 to 299.\<close>

record response =
  status_code :: nat
  statusText :: string
  body_text :: string

definition ok :: "response \<Rightarrow> bool" where
  "ok r = (200 \<le> status_code r \<and> status_code r \<le> 299)"

section \<open>The llms.txt scripts\<close>

text \<open>
  The loop of \<open>syncDocs\<close> over the documents, the same in the xAI script and in the
  templates but for the address written into the front matter. In a dry run a
  document is reported as skipped; otherwise it is written and reported as created.
\<close>

fun write_docs ::
  "string \<Rightarrow> bool \<Rightarrow> (string \<times> string) list \<Rightarrow> fs \<Rightarrow> SyncResult list \<Rightarrow> fs \<times> (error + SyncResult list)" where
  "write_docs base dryRun [] s results = (s, Inr results)"
| "write_docs base dryRun ((p, body) # docs) s results =
     (let filename = pathToFilename p;
          t = extractTitle body p
      in if dryRun then
           write_docs base dryRun docs s
             (results @ [\<lparr>path = filename, title = t, status = Skipped\<rparr>])
         else
           (case writeFile filename
                   (Text (''---\<newline>source: '' @ base @ ''/'' @ p @ ''\<newline>---\<newline>\<newline>'' @ body)) s of
              Inl e \<Rightarrow> (s, Inl e)
            | Inr s' \<Rightarrow>
                write_docs base dryRun docs s'
                  (results @ [\<lparr>path = filename, title = t, status = Created\<rparr>])))"

text \<open>\<open>writeManifest(results)\<close> of the llms.txt scripts.\<close>

definition writeManifest :: "string \<Rightarrow> string \<Rightarrow> SyncResult list \<Rightarrow> fs \<Rightarrow> error + fs" where
  "writeManifest url now results s =
     writeFile ''manifest.json''
       (Json \<lparr>source = url, sourcePath = None, commit = None, syncedAt = now,
              fileCount = length (filter (\<lambda>r. status r \<noteq> Skipped) results),
              files = sort (map path results)\<rparr>) s"

subsection \<open>The xAI script\<close>

text \<open>
  The world of the xAI script: whether the dev-browser skill is installed, what the
  spawned fetch helper prints and how it exits, and the time.
\<close>

record xai_env =
  dev_browser_exists :: bool
  spawn_stdout :: string
  spawn_exit :: nat
  spawn_stderr :: string
  xai_now :: string

definition fetchLlmsTxt :: "xai_env \<Rightarrow> error + string" where
  "fetchLlmsTxt env =
     (if \<not> dev_browser_exists env then
        Inl (Error ''dev-browser skill not found. Please install it first.'')
      else if spawn_exit env \<noteq> 0 then
        Inl (Error (''Failed to fetch llms.txt: '' @ spawn_stderr env))
      else Inr (spawn_stdout env))"

definition syncDocs :: "xai_env \<Rightarrow> bool \<Rightarrow> fs \<Rightarrow> fs \<times> (error + SyncResult list)" where
  "syncDocs env dryRun s =
     (case fetchLlmsTxt env of
        Inl e \<Rightarrow> (s, Inl e)
      | Inr content \<Rightarrow>
          write_docs ''https://docs.x.ai'' dryRun (parseLlmsTxt content)
            (if \<not> dryRun then mkdir_resources s else s) [])"

text \<open>\<open>main\<close>: a failure is caught, printed, and the process exits with status 1.\<close>

definition main_xai :: "xai_env \<Rightarrow> bool \<Rightarrow> fs \<Rightarrow> outcome" where
  "main_xai env dryRun s =
     (case syncDocs env dryRun s of
        (s1, Inl e) \<Rightarrow> \<lparr>final = s1, stderr = [e], exit_code = 1\<rparr>
      | (s1, Inr results) \<Rightarrow>
          if \<not> dryRun then
            (case writeManifest ''https://docs.x.ai/llms.txt'' (xai_now env) results s1 of
               Inl e \<Rightarrow> \<lparr>final = s1, stderr = [e], exit_code = 1\<rparr>
             | Inr s2 \<Rightarrow> \<lparr>final = s2, stderr = [], exit_code = 0\<rparr>)
          else \<lparr>final = s1, stderr = [], exit_code = 0\<rparr>)"

subsection \<open>The llms.txt template\<close>

text \<open>The world of the template: the answer of \<open>fetch(LLMS_TXT_URL)\<close>, which may
  itself fail, and the time.\<close>

record tpl_env =
  tpl_fetch :: "error + response"
  tpl_now :: string

definition fetchLlmsTxt_tpl :: "tpl_env \<Rightarrow> error + string" where
  "fetchLlmsTxt_tpl env =
     (case tpl_fetch env of
        Inl e \<Rightarrow> Inl e
      | Inr r \<Rightarrow>
          if \<not> ok r then Inl (FetchFailed ''https://docs.example.com/llms.txt'' (status_code r))
          else Inr (body_text r))"

definition syncDocs_tpl :: "tpl_env \<Rightarrow> bool \<Rightarrow> fs \<Rightarrow> fs \<times> (error + SyncResult list)" where
  "syncDocs_tpl env dryRun s =
     (case fetchLlmsTxt_tpl env of
        Inl e \<Rightarrow> (s, Inl e)
      | Inr content \<Rightarrow>
          write_docs ''https://docs.example.com'' dryRun (parseLlmsTxt_tpl content)
            (if \<not> dryRun then mkdir_resources s else s) [])"

definition main_tpl :: "tpl_env \<Rightarrow> bool \<Rightarrow> fs \<Rightarrow> outcome" where
  "main_tpl env dryRun s =
     (case syncDocs_tpl env dryRun s of
        (s1, Inl e) \<Rightarrow> \<lparr>final = s1, stderr = [e], exit_code = 1\<rparr>
      | (s1, Inr results) \<Rightarrow>
          if \<not> dryRun then
            (case writeManifest ''https://docs.example.com/llms.txt'' (tpl_now env) results s1 of
               Inl e \<Rightarrow> \<lparr>final = s1, stderr = [e], exit_code = 1\<rparr>
             | Inr s2 \<Rightarrow> \<lparr>final = s2, stderr = [], exit_code = 0\<rparr>)
          else \<lparr>final = s1, stderr = [], exit_code = 0\<rparr>)"

section \<open>The repository scripts\<close>

text \<open>
  The world of a repository script: what \<open>git clone --depth 1\<close> does (it leaves the
  cloned tree in \<open>TEMP_DIR\<close>, or it fails with a message and leaves \<open>TEMP_DIR\<close> absent
  or with whatever it had written), what \<open>git rev-parse HEAD\<close> prints, and the time.
\<close>

datatype clone_outcome = CloneOk "entry list" | CloneFailed string "entry list option"

record repo_env =
  clone :: clone_outcome
  rev_parse :: "error + string"
  repo_now :: string

text \<open>\<open>cloneRepo\<close>: an old \<open>TEMP_DIR\<close> is removed first.\<close>

definition cloneRepo :: "repo_env \<Rightarrow> fs \<Rightarrow> fs \<times> (error + unit)" where
  "cloneRepo env s =
     (let s1 = (if temp_dir s \<noteq> None then s\<lparr>temp_dir := None\<rparr> else s) in
      case clone env of
        CloneOk tree \<Rightarrow> (s1\<lparr>temp_dir := Some tree\<rparr>, Inr ())
      | CloneFailed msg left \<Rightarrow> (s1\<lparr>temp_dir := left\<rparr>, Inl (Error msg)))"

definition getCommitHash :: "repo_env \<Rightarrow> error + string" where
  "getCommitHash env = (case rev_parse env of Inl e \<Rightarrow> Inl e | Inr h \<Rightarrow> Inr (trim h))"

text \<open>\<open>cleanup\<close>: \<open>if (existsSync(TEMP_DIR)) rm(TEMP_DIR, { recursive: true })\<close>.\<close>

definition cleanup :: "fs \<Rightarrow> fs" where
  "cleanup s = (if temp_dir s \<noteq> None then s\<lparr>temp_dir := None\<rparr> else s)"

text \<open>The first entry of that name in a directory.\<close>

definition lookup_entry :: "string \<Rightarrow> entry list \<Rightarrow> entry option" where
  "lookup_entry n es = find (\<lambda>e. entry_name e = n) es"

subsection \<open>The FastMCP script\<close>

definition SOURCE_PATH :: string where
  "SOURCE_PATH = ''docs''"

definition SKIP_DIRS :: "string list" where
  "SKIP_DIRS = [''.cursor'', ''assets'', ''css'', ''public'', ''snippets'', ''node_modules'']"

definition SKIP_FILES :: "string list" where
  "SKIP_FILES = [''.ccignore'']"

text \<open>
  \<open>processDir\<close>, the walk of \<open>copyDocs\<close>: \<open>processEntry\<close> is one turn of its loop over
  the entries of a directory. The state is the file system and the \<open>results\<close> array.
\<close>

fun processEntry ::
    "bool \<Rightarrow> string \<Rightarrow> entry \<Rightarrow> fs \<Rightarrow> SyncResult list \<Rightarrow> fs \<times> (error + SyncResult list)"
  and processDir ::
    "bool \<Rightarrow> string \<Rightarrow> entry list \<Rightarrow> fs \<Rightarrow> SyncResult list \<Rightarrow> fs \<times> (error + SyncResult list)" where
  "processEntry dryRun relPath (Dir n es) s results =
     (if n \<in> set SKIP_DIRS then (s, Inr results)
      else processDir dryRun (join relPath n) es s results)"
| "processEntry dryRun relPath (File n content) s results =
     (if n \<in> set SKIP_FILES then (s, Inr results)
      else if \<not> suffix ''.md'' n \<and> \<not> suffix ''.mdx'' n then (s, Inr results)
      else
        (let out = outputName relPath n;
             t = (case match_title content of Some t \<Rightarrow> t | None \<Rightarrow> strip_md_ext n)
         in if dryRun then
              (s, Inr (results @ [\<lparr>path = out, title = t, status = Skipped\<rparr>]))
            else
              (case writeFile out (Text content) s of
                 Inl e \<Rightarrow> (s, Inl e)
               | Inr s' \<Rightarrow> (s', Inr (results @ [\<lparr>path = out, title = t, status = Created\<rparr>])))))"
| "processEntry dryRun relPath (Other n c) s results = (s, Inr results)"
| "processDir dryRun relPath [] s results = (s, Inr results)"
| "processDir dryRun relPath (e # es) s results =
     (case processEntry dryRun relPath e s results of
        (s', Inl err) \<Rightarrow> (s', Inl err)
      | (s', Inr results') \<Rightarrow> processDir dryRun relPath es s' results')"

text \<open>\<open>copyDocs\<close>: the source directory must exist in the clone; \<open>readdirSync\<close> fails
  on what is no directory.\<close>

definition copyDocs :: "bool \<Rightarrow> fs \<Rightarrow> fs \<times> (error + SyncResult list)" where
  "copyDocs dryRun s =
     (case temp_dir s of
        None \<Rightarrow> (s, Inl (Error ''Source directory not found''))
      | Some tree \<Rightarrow>
          (case lookup_entry SOURCE_PATH tree of
             None \<Rightarrow> (s, Inl (Error ''Source directory not found''))
           | Some (Dir n es) \<Rightarrow> processDir dryRun [] es s []
           | Some (File n c) \<Rightarrow> (s, Inl (Error ''ENOTDIR: not a directory''))
           | Some (Other n c) \<Rightarrow> (s, Inl (Error ''ENOTDIR: not a directory''))))"

text \<open>\<open>writeManifest(commit, results)\<close>.\<close>

definition writeManifest_fastmcp :: "repo_env \<Rightarrow> string \<Rightarrow> SyncResult list \<Rightarrow> fs \<Rightarrow> error + fs" where
  "writeManifest_fastmcp env c results s =
     writeFile ''manifest.json''
       (Json \<lparr>source = ''https://github.com/jlowin/fastmcp.git'', sourcePath = None,
              commit = Some c, syncedAt = repo_now env,
              fileCount = length (filter (\<lambda>r. status r \<noteq> Skipped) results),
              files = sort (map path results)\<rparr>) s"

text \<open>The \<open>try\<close> block of \<open>main\<close>.\<close>

definition try_fastmcp :: "repo_env \<Rightarrow> bool \<Rightarrow> fs \<Rightarrow> fs \<times> (error + SyncResult list)" where
  "try_fastmcp env dryRun s =
     (case cloneRepo env s of
        (s1, Inl e) \<Rightarrow> (s1, Inl e)
      | (s1, Inr u) \<Rightarrow>
          (case getCommitHash env of
             Inl e \<Rightarrow> (s1, Inl e)
           | Inr c \<Rightarrow>
               (case copyDocs dryRun (if \<not> dryRun then mkdir_resources s1 else s1) of
                  (s3, Inl e) \<Rightarrow> (s3, Inl e)
                | (s3, Inr results) \<Rightarrow>
                    if \<not> dryRun then
                      (case writeManifest_fastmcp env c results s3 of
                         Inl e \<Rightarrow> (s3, Inl e)
                       | Inr s4 \<Rightarrow> (s4, Inr results))
                    else (s3, Inr results))))"

text \<open>
  \<open>main\<close> with its \<open>finally\<close>, and the handler of the last line:
  \<open>main().catch((error) => { console.error("Sync failed:", error); cleanup(); process.exit(1); })\<close>.
\<close>

definition main_fastmcp :: "repo_env \<Rightarrow> bool \<Rightarrow> fs \<Rightarrow> outcome" where
  "main_fastmcp env dryRun s =
     (case try_fastmcp env dryRun s of
        (s1, Inr results) \<Rightarrow> \<lparr>final = cleanup s1, stderr = [], exit_code = 0\<rparr>
      | (s1, Inl e) \<Rightarrow> \<lparr>final = cleanup (cleanup s1), stderr = [e], exit_code = 1\<rparr>)"

subsection \<open>The GitHub template\<close>

text \<open>\<open>interface SyncResult\<close> of the template: no status.\<close>

record GithubResult =
  g_path :: string
  g_size :: nat

text \<open>
  \<open>processDir\<close> of the template. It has no skip sets, keeps the directories in the
  output path, and reads whatever is no directory and has the extension. Before a
  file is written, the directory \<open>join(RESOURCES_DIR, relPath)\<close> is made; both calls
  can fail, and a failure ends the walk.
\<close>

fun processEntry_github ::
    "bool \<Rightarrow> string \<Rightarrow> entry \<Rightarrow> fs \<Rightarrow> GithubResult list \<Rightarrow> fs \<times> (error + GithubResult list)"
  and processDir_github ::
    "bool \<Rightarrow> string \<Rightarrow> entry list \<Rightarrow> fs \<Rightarrow> GithubResult list \<Rightarrow> fs \<times> (error + GithubResult list)" where
  "processEntry_github dryRun relPath (Dir n es) s results =
     processDir_github dryRun (join relPath n) es s results"
| "processEntry_github dryRun relPath (File n content) s results =
     (if suffix ''.mdx'' n \<or> suffix ''.md'' n then
        (let outputRelPath = join relPath (mdx_to_md n) in
         if dryRun then
           (s, Inr (results @ [\<lparr>g_path = outputRelPath, g_size = length content\<rparr>]))
         else
           (case mkdir_p relPath s of
              Inl e \<Rightarrow> (s, Inl e)
            | Inr s1 \<Rightarrow>
                (case writeFile outputRelPath (Text content) s1 of
                   Inl e \<Rightarrow> (s1, Inl e)
                 | Inr s' \<Rightarrow>
                     (s', Inr (results @ [\<lparr>g_path = outputRelPath, g_size = length content\<rparr>])))))
      else (s, Inr results))"
| "processEntry_github dryRun relPath (Other n c) s results =
     (if suffix ''.mdx'' n \<or> suffix ''.md'' n then
        (case c of
           None \<Rightarrow> (s, Inl (Error ''readFile failed''))
         | Some content \<Rightarrow>
             (let outputRelPath = join relPath (mdx_to_md n) in
              if dryRun then
                (s, Inr (results @ [\<lparr>g_path = outputRelPath, g_size = length content\<rparr>]))
              else
                (case mkdir_p relPath s of
                   Inl e \<Rightarrow> (s, Inl e)
                 | Inr s1 \<Rightarrow>
                     (case writeFile outputRelPath (Text content) s1 of
                        Inl e \<Rightarrow> (s1, Inl e)
                      | Inr s' \<Rightarrow>
                          (s', Inr (results @
                             [\<lparr>g_path = outputRelPath, g_size = length content\<rparr>]))))))
      else (s, Inr results))"
| "processDir_github dryRun relPath [] s results = (s, Inr results)"
| "processDir_github dryRun relPath (e # es) s results =
     (case processEntry_github dryRun relPath e s results of
        (s', Inl err) \<Rightarrow> (s', Inl err)
      | (s', Inr results') \<Rightarrow> processDir_github dryRun relPath es s' results')"

definition copyDocs_github :: "bool \<Rightarrow> fs \<Rightarrow> fs \<times> (error + GithubResult list)" where
  "copyDocs_github dryRun s =
     (case temp_dir s of
        None \<Rightarrow> (s, Inl (Error ''Source path not found: docs''))
      | Some tree \<Rightarrow>
          (case lookup_entry SOURCE_PATH tree of
             None \<Rightarrow> (s, Inl (Error ''Source path not found: docs''))
           | Some (Dir n es) \<Rightarrow> processDir_github dryRun [] es s []
           | Some (File n c) \<Rightarrow> (s, Inl (Error ''ENOTDIR: not a directory''))
           | Some (Other n c) \<Rightarrow> (s, Inl (Error ''ENOTDIR: not a directory''))))"

text \<open>\<open>writeManifest(results, commitHash, dryRun)\<close>: in a dry run it only logs.\<close>

definition writeManifest_github ::
  "repo_env \<Rightarrow> GithubResult list \<Rightarrow> string \<Rightarrow> bool \<Rightarrow> fs \<Rightarrow> error + fs" where
  "writeManifest_github env results commitHash dryRun s =
     (if dryRun then Inr s
      else writeFile ''manifest.json''
             (Json \<lparr>source = ''https://github.com/org/repo'', sourcePath = Some SOURCE_PATH,
                    commit = Some commitHash, syncedAt = repo_now env,
                    fileCount = length results,
                    files = sort (map g_path results)\<rparr>) s)"

definition try_github :: "repo_env \<Rightarrow> bool \<Rightarrow> fs \<Rightarrow> fs \<times> (error + GithubResult list)" where
  "try_github env dryRun s =
     (case cloneRepo env s of
        (s1, Inl e) \<Rightarrow> (s1, Inl e)
      | (s1, Inr u) \<Rightarrow>
          (case getCommitHash env of
             Inl e \<Rightarrow> (s1, Inl e)
           | Inr c \<Rightarrow>
               (case copyDocs_github dryRun (if \<not> dryRun then mkdir_resources s1 else s1) of
                  (s3, Inl e) \<Rightarrow> (s3, Inl e)
                | (s3, Inr results) \<Rightarrow>
                    (case writeManifest_github env results c dryRun s3 of
                       Inl e \<Rightarrow> (s3, Inl e)
                     | Inr s4 \<Rightarrow> (s4, Inr results)))))"

text \<open>
  \<open>main\<close> with its \<open>finally\<close>, and the last line \<open>main().catch(console.error)\<close>: the
  error is printed, nothing sets an exit status, and the process ends with status 0.
\<close>

definition main_github :: "repo_env \<Rightarrow> bool \<Rightarrow> fs \<Rightarrow> outcome" where
  "main_github env dryRun s =
     (case try_github env dryRun s of
        (s1, Inr results) \<Rightarrow> \<lparr>final = cleanup s1, stderr = [], exit_code = 0\<rparr>
      | (s1, Inl e) \<Rightarrow> \<lparr>final = cleanup s1, stderr = [e], exit_code = 0\<rparr>)"

section \<open>The direct-fetch template\<close>

text \<open>\<open>interface SyncResult\<close> of the template: path, hash and size, no status.\<close>

record DirectResult =
  d_path :: string
  d_hash :: digest
  d_size :: nat

text \<open>The configuration (\<open>BASE_URL\<close>, \<open>DOC_PATHS\<close>) and the world: the answer of
  \<open>fetch\<close> for every address, and the time.\<close>

record direct_env =
  BASE_URL :: string
  DOC_PATHS :: "string list"
  fetch :: "string \<Rightarrow> error + response"
  direct_now :: string

definition fetchDoc :: "direct_env \<Rightarrow> string \<Rightarrow> error + string" where
  "fetchDoc env p =
     (let url = BASE_URL env @ ''/'' @ p in
      case fetch env url of
        Inl e \<Rightarrow> Inl e
      | Inr r \<Rightarrow> if \<not> ok r then Inl (FetchFailed url (status_code r)) else Inr (body_text r))"

text \<open>The variables of \<open>main\<close>, with the file system, what \<open>console.error\<close> printed,
  and the error that \<open>main\<close> was rejected with, if it was.\<close>

record direct_state =
  d_fs :: fs
  results :: "DirectResult list"
  synced :: nat
  failed :: nat
  errors :: "error list"
  rejected :: "error option"

text \<open>
  One turn of the loop over \<open>DOC_PATHS\<close>: the \<open>try\<close> with its \<open>catch\<close>. The \<open>try\<close>
  holds the fetch, the \<open>mkdir\<close> of the directory of the output path and the
  \<open>writeFile\<close>; whichever of them fails, the \<open>catch\<close> prints the error and counts a
  failure, and nothing is pushed to \<open>results\<close>.
\<close>

definition direct_step :: "direct_env \<Rightarrow> bool \<Rightarrow> string \<Rightarrow> direct_state \<Rightarrow> direct_state" where
  "direct_step env dryRun p st =
     (case fetchDoc env p of
        Inl e \<Rightarrow> st\<lparr>failed := failed st + 1, errors := errors st @ [e]\<rparr>
      | Inr content \<Rightarrow>
          (let r = \<lparr>d_path = p, d_hash = hashContent content, d_size = length content\<rparr> in
           if dryRun then st\<lparr>results := results st @ [r], synced := synced st + 1\<rparr>
           else
             (case mkdir_p (dirname p) (d_fs st) of
                Inl e \<Rightarrow> st\<lparr>failed := failed st + 1, errors := errors st @ [e]\<rparr>
              | Inr s1 \<Rightarrow>
                  (case writeFile p (Text content) s1 of
                     Inl e \<Rightarrow> st\<lparr>d_fs := s1, failed := failed st + 1, errors := errors st @ [e]\<rparr>
                   | Inr s' \<Rightarrow>
                       st\<lparr>d_fs := s', results := results st @ [r], synced := synced st + 1\<rparr>))))"

fun direct_loop :: "direct_env \<Rightarrow> bool \<Rightarrow> string list \<Rightarrow> direct_state \<Rightarrow> direct_state" where
  "direct_loop env dryRun [] st = st"
| "direct_loop env dryRun (p # ps) st = direct_loop env dryRun ps (direct_step env dryRun p st)"

text \<open>The variables as \<open>main\<close> starts.\<close>

definition direct_init :: "fs \<Rightarrow> direct_state" where
  "direct_init s =
     \<lparr>d_fs = s, results = [], synced = 0, failed = 0, errors = [], rejected = None\<rparr>"

text \<open>\<open>main\<close> up to its end: the loop, then the manifest when the run is no dry run and
  there is a result. A failure of that last write rejects \<open>main\<close>, and the last line
  of the script prints the error.\<close>

definition run_direct :: "direct_env \<Rightarrow> bool \<Rightarrow> fs \<Rightarrow> direct_state" where
  "run_direct env dryRun s =
     (let st = direct_loop env dryRun (DOC_PATHS env) (direct_init s)
      in if \<not> dryRun \<and> results st \<noteq> [] then
           (case writeFile ''manifest.json''
                   (JsonDirect \<lparr>d_source = BASE_URL env, d_syncedAt = direct_now env,
                                d_fileCount = length (results st),
                                d_files = map (\<lambda>r. (d_path r, d_hash r)) (results st)\<rparr>)
                   (d_fs st) of
              Inl e \<Rightarrow> st\<lparr>errors := errors st @ [e], rejected := Some e\<rparr>
            | Inr s' \<Rightarrow> st\<lparr>d_fs := s'\<rparr>)
         else st)"

text \<open>The last line is \<open>main().catch(console.error)\<close>: the process ends with status 0.\<close>

definition main_direct :: "direct_env \<Rightarrow> bool \<Rightarrow> fs \<Rightarrow> outcome" where
  "main_direct env dryRun s =
     (let st = run_direct env dryRun s in
      \<lparr>final = d_fs st, stderr = errors st, exit_code = 0\<rparr>)"

section \<open>MarkdownConverter: the \<open>codeBlocks\<close> rule\<close>

text \<open>
  The nodes the rule sees: text, and elements with their node name (in upper case,
  as the DOM gives it), their attributes and their children.
\<close>

datatype node = TextNode string | Element string "(string \<times> string) list" "node list"

fun nodeName :: "node \<Rightarrow> string" where
  "nodeName (TextNode t) = ''#text''"
| "nodeName (Element n as cs) = n"

fun textContent :: "node \<Rightarrow> string" where
  "textContent (TextNode t) = t"
| "textContent (Element n as cs) = concat (map textContent cs)"

text \<open>\<open>getAttribute\<close>, and \<open>className\<close>, which is the empty string without a \<open>class\<close>.\<close>

fun getAttribute :: "node \<Rightarrow> string \<Rightarrow> string option" where
  "getAttribute (TextNode t) a = None"
| "getAttribute (Element n as cs) a = map_of as a"

definition className :: "node \<Rightarrow> string" where
  "className nd = (case getAttribute nd ''class'' of None \<Rightarrow> [] | Some v \<Rightarrow> v)"

text \<open>\<open>node.querySelector("code")\<close>: the first \<open>code\<close> element below the node, in
  document order.\<close>

fun find_code :: "node \<Rightarrow> node option"
  and find_code_in :: "node list \<Rightarrow> node option" where
  "find_code (TextNode t) = None"
| "find_code (Element n as cs) =
     (if n = ''CODE'' then Some (Element n as cs) else find_code_in cs)"
| "find_code_in [] = None"
| "find_code_in (c # cs) = (case find_code c of Some x \<Rightarrow> Some x | None \<Rightarrow> find_code_in cs)"

fun querySelector_code :: "node \<Rightarrow> node option" where
  "querySelector_code (TextNode t) = None"
| "querySelector_code (Element n as cs) = find_code_in cs"

text \<open>\<open>className.match(/language-(\w+)/)?.[1]\<close>: the word characters after the first
  \<open>language-\<close> that is followed by one.\<close>

fun match_language :: "string \<Rightarrow> string option" where
  "match_language [] = None"
| "match_language (c # cs) =
     (if prefix ''language-'' (c # cs) \<and> takeWhile is_word_char (drop 9 (c # cs)) \<noteq> []
      then Some (takeWhile is_word_char (drop 9 (c # cs)))
      else match_language cs)"

text \<open>
  \<open>code?.className?.match(/language-(\w+)/)?.[1] || code?.getAttribute("data-lang") || ""\<close>
\<close>

definition code_lang :: "node option \<Rightarrow> string" where
  "code_lang code =
     (case code of
        None \<Rightarrow> []
      | Some cd \<Rightarrow>
          (case match_language (className cd) of
             Some l \<Rightarrow> l
           | None \<Rightarrow> (case getAttribute cd ''data-lang'' of None \<Rightarrow> [] | Some v \<Rightarrow> v)))"

text \<open>\<open>code?.textContent || node.textContent || ""\<close>: an empty text is falsy.\<close>

definition code_text :: "node option \<Rightarrow> node \<Rightarrow> string" where
  "code_text code nd =
     (case code of
        None \<Rightarrow> textContent nd
      | Some cd \<Rightarrow> if textContent cd \<noteq> [] then textContent cd else textContent nd)"

text \<open>A fenced block: \<open>`\n\`\`\`${lang}\n${text.trim()}\n\`\`\`\n`\<close>.\<close>

definition fence :: "string \<Rightarrow> string \<Rightarrow> string" where
  "fence lang body = ''\<newline>```'' @ lang @ ''\<newline>'' @ body @ ''\<newline>```\<newline>''"

text \<open>The \<open>filter\<close> of the rule, for a node and the node name of its parent.\<close>

definition codeBlocks_filter :: "node \<Rightarrow> string option \<Rightarrow> bool" where
  "codeBlocks_filter nd parent =
     (nodeName nd = ''PRE'' \<or> (nodeName nd = ''CODE'' \<and> parent \<noteq> Some ''PRE''))"

text \<open>The \<open>replacement\<close> of the rule, for the converted content of the node and the
  node.\<close>

definition codeBlocks :: "string \<Rightarrow> node \<Rightarrow> string" where
  "codeBlocks content nd =
     (if nodeName nd = ''PRE'' then
        (let code = querySelector_code nd in
         fence (code_lang code) (trim (code_text code nd)))
      else ''`'' @ content @ ''`'')"

section \<open>Observations and example inputs\<close>

text \<open>Whether two dashes stand side by side in a string.\<close>

fun double_dash :: "string \<Rightarrow> bool" where
  "double_dash (a # b # s) = ((a = CHR ''-'' \<and> b = CHR ''-'') \<or> double_dash (b # s))"
| "double_dash s = False"

text \<open>The number of documents the FastMCP walk selects in a directory.\<close>

fun count_docs :: "entry \<Rightarrow> nat"
  and count_docs_in :: "entry list \<Rightarrow> nat" where
  "count_docs (Dir n es) = (if n \<in> set SKIP_DIRS then 0 else count_docs_in es)"
| "count_docs (File n c) =
     (if n \<in> set SKIP_FILES then 0
      else if \<not> suffix ''.md'' n \<and> \<not> suffix ''.mdx'' n then 0
      else 1)"
| "count_docs (Other n c) = 0"
| "count_docs_in [] = 0"
| "count_docs_in (e # es) = count_docs e + count_docs_in es"

text \<open>The paths that \<open>manifest.json\<close> lists, when the file is there.\<close>

definition manifest_files :: "fs \<Rightarrow> string list option" where
  "manifest_files s =
     (case resources s of
        None \<Rightarrow> None
      | Some m \<Rightarrow>
          (case m ''manifest.json'' of
             None \<Rightarrow> None
           | Some DirNode \<Rightarrow> None
           | Some (FileNode (Text t)) \<Rightarrow> None
           | Some (FileNode (Json mf)) \<Rightarrow> Some (files mf)
           | Some (FileNode (JsonDirect mf)) \<Rightarrow> Some (map fst (d_files mf))))"


text \<open>Whether \<open>===/\<close> occurs in a string.\<close>

fun has_delim :: "string \<Rightarrow> bool" where
  "has_delim [] = False"
| "has_delim (c # cs) = (at_delim (c # cs) \<or> has_delim cs)"

text \<open>Whether the fetch of a path of the direct-fetch template succeeds.\<close>

definition fetched :: "direct_env \<Rightarrow> string \<Rightarrow> bool" where
  "fetched env p = (case fetchDoc env p of Inl e \<Rightarrow> False | Inr content \<Rightarrow> True)"

text \<open>An empty disk.\<close>

definition fs0 :: fs where
  "fs0 = \<lparr>resources = None, temp_dir = None\<rparr>"

text \<open>A server that answers 404 for \<open>b.md\<close> and 200 with the text \<open>doc\<close> for
  everything else, and three configurations of the direct-fetch template on it.\<close>

definition fetch_b_missing :: "string \<Rightarrow> error + response" where
  "fetch_b_missing url =
     (if url = ''https://docs.example.com/b.md''
      then Inr \<lparr>status_code = 404, statusText = ''Not Found'', body_text = []\<rparr>
      else Inr \<lparr>status_code = 200, statusText = ''OK'', body_text = ''doc''\<rparr>)"



definition env_ca :: direct_env where
  "env_ca = \<lparr>BASE_URL = ''https://docs.example.com'', DOC_PATHS = [''c.md'', ''a.md''],
             fetch = fetch_b_missing, direct_now = ''2025-01-15T12:00:00.000Z''\<rparr>"

definition env_ac :: direct_env where
  "env_ac = \<lparr>BASE_URL = ''https://docs.example.com'', DOC_PATHS = [''a.md'', ''c.md''],
             fetch = fetch_b_missing, direct_now = ''2025-01-15T12:00:00.000Z''\<rparr>"

text \<open>A dev-browser helper that prints an empty page, and one that prints a page
  with one section.\<close>

definition xai_empty :: xai_env where
  "xai_empty = \<lparr>dev_browser_exists = True, spawn_stdout = [], spawn_exit = 0,
                spawn_stderr = [], xai_now = ''2025-01-15T12:00:00.000Z''\<rparr>"

definition xai_one :: xai_env where
  "xai_one = \<lparr>dev_browser_exists = True,
              spawn_stdout = ''===/docs/guides/chat===\<newline># Chat\<newline>Hello'',
              spawn_exit = 0, spawn_stderr = [], xai_now = ''2025-01-15T12:00:00.000Z''\<rparr>"

definition tpl_one :: tpl_env where
  "tpl_one = \<lparr>tpl_fetch = Inr \<lparr>status_code = 200, statusText = ''OK'',
                                 body_text = ''===/docs/guides/chat===\<newline># Chat\<newline>Hello''\<rparr>,
              tpl_now = ''2025-01-15T12:00:00.000Z''\<rparr>"

text \<open>A clone that fails and leaves a partial directory, and a clone that succeeds
  with two documents, one of them in a directory, beside files that are skipped.\<close>

definition repo_clone_fails :: repo_env where
  "repo_clone_fails = \<lparr>clone = CloneFailed ''fatal: unable to access the repository''
                                 (Some [Dir ''.git'' []]),
                       rev_parse = Inl (Error ''not a git repository''),
                       repo_now = ''2025-01-15T12:00:00.000Z''\<rparr>"

definition repo_tree :: "entry list" where
  "repo_tree =
     [File ''README.md'' ''# Readme'',
      Dir ''docs''
        [File ''b.md'' ''# B'',
         Dir ''sub'' [File ''a.mdx'' ''text'', File ''logo.png'' ''png''],
         Dir ''assets'' [File ''z.md'' ''z'']]]"

definition repo_ok :: repo_env where
  "repo_ok = \<lparr>clone = CloneOk repo_tree, rev_parse = Inr ''0a1b2c3\<newline>'',
              repo_now = ''2025-01-15T12:00:00.000Z''\<rparr>"

text \<open>A clone without the source directory.\<close>

definition repo_no_docs :: repo_env where
  "repo_no_docs = \<lparr>clone = CloneOk [File ''README.md'' ''# Readme''], rev_parse = Inr ''0a1b2c3\<newline>'',
                   repo_now = ''2025-01-15T12:00:00.000Z''\<rparr>"

text \<open>A disk with an old clone left behind.\<close>

definition fs_stale :: fs where
  "fs_stale = \<lparr>resources = None, temp_dir = Some [File ''old'' ''old'']\<rparr>"

text \<open>A disk after a clone of that tree, with an empty resources directory.\<close>

definition fs_cloned :: fs where
  "fs_cloned = \<lparr>resources = Some Map.empty, temp_dir = Some repo_tree\<rparr>"

text \<open>The results of two runs that acquire the same two documents in the two orders.\<close>

definition results_ba :: "SyncResult list" where
  "results_ba = [\<lparr>path = ''sub-b.md'', title = ''B'', status = Created\<rparr>,
                 \<lparr>path = ''a.md'', title = ''A'', status = Created\<rparr>]"

definition results_ab :: "SyncResult list" where
  "results_ab = [\<lparr>path = ''a.md'', title = ''A'', status = Created\<rparr>,
                 \<lparr>path = ''sub-b.md'', title = ''B'', status = Created\<rparr>]"

definition gresults_ba :: "GithubResult list" where
  "gresults_ba = [\<lparr>g_path = ''sub/b.md'', g_size = 3\<rparr>, \<lparr>g_path = ''a.md'', g_size = 3\<rparr>]"

definition gresults_ab :: "GithubResult list" where
  "gresults_ab = [\<lparr>g_path = ''a.md'', g_size = 3\<rparr>, \<lparr>g_path = ''sub/b.md'', g_size = 3\<rparr>]"

text \<open>\<open><pre>abc<code></code></pre>\<close>, a \<open><pre>\<close> that holds only text, and
  \<open><pre><code class="language-python">x = 1</code></pre>\<close>.\<close>

definition pre_empty_code :: node where
  "pre_empty_code = Element ''PRE'' [] [TextNode ''abc'', Element ''CODE'' [] []]"

definition pre_plain :: node where
  "pre_plain = Element ''PRE'' [] [TextNode ''  plain text  '']"

definition pre_python :: node where
  "pre_python =
     Element ''PRE'' [] [Element ''CODE'' [(''class'', ''language-python'')] [TextNode ''x = 1'']]"

section \<open>The scratch directory\<close>

lemma temp_dir_cleanup: "temp_dir (cleanup s) = None"
  by (simp add: cleanup_def)

lemma resources_cleanup: "resources (cleanup s) = resources s"
  by (simp add: cleanup_def)

text \<open>
  C6. Every run of a repository script, whether it succeeds or fails at any step (the
  clone, the commit hash, a missing source directory, a write), ends with \<open>TEMP_DIR\<close>
  absent: the \<open>finally\<close> of \<open>main\<close> removes it on every path.
\<close>

theorem scratch_dir_removed:
  "temp_dir (final (main_fastmcp env dryRun s)) = None
   \<and> temp_dir (final (main_github env dryRun s)) = None"
  by (simp add: main_fastmcp_def main_github_def temp_dir_cleanup split: prod.split sum.split)

theorem scratch_dir_removed_witness:
  "temp_dir (final (main_fastmcp repo_clone_fails False fs_stale)) = None
   \<and> temp_dir (final (main_github repo_clone_fails False fs_stale)) = None"
  by (rule scratch_dir_removed)

section \<open>Statuses\<close>

lemma write_docs_status:
  "write_docs base dryRun docs s acc = (s', Inr rs) \<Longrightarrow>
   \<forall>r \<in> set acc. status r = (if dryRun then Skipped else Created) \<Longrightarrow>
   \<forall>r \<in> set rs. status r = (if dryRun then Skipped else Created)"
proof (induction base dryRun docs s acc rule: write_docs.induct)
  case (1 base dryRun s results)
  then show ?case by simp
next
  case (2 base dryRun p body docs s results)
  then show ?case
    by (auto simp: Let_def split: if_splits sum.splits)
qed

lemma process_status:
  "(processEntry dryRun rel e s acc = (s', Inr rs) \<longrightarrow>
     (\<forall>r \<in> set acc. status r = (if dryRun then Skipped else Created)) \<longrightarrow>
     (\<forall>r \<in> set rs. status r = (if dryRun then Skipped else Created)))"
  "(processDir dryRun rel es s acc = (s', Inr rs) \<longrightarrow>
     (\<forall>r \<in> set acc. status r = (if dryRun then Skipped else Created)) \<longrightarrow>
     (\<forall>r \<in> set rs. status r = (if dryRun then Skipped else Created)))"
proof (induction dryRun rel e s acc and dryRun rel es s acc arbitrary: s' rs and s' rs
       rule: processEntry_processDir.induct)
  case (1 dryRun relPath n es s results)
  then show ?case by (auto split: if_splits)
next
  case (2 dryRun relPath n content s results)
  then show ?case by (auto simp: Let_def split: if_splits sum.splits)
next
  case (3 dryRun relPath n c s results)
  then show ?case by auto
next
  case (4 dryRun relPath s results)
  then show ?case by auto
next
  case (5 dryRun relPath e es s results)
  show ?case
  proof (intro impI)
    assume run: "processDir dryRun relPath (e # es) s results = (s', Inr rs)"
      and acc: "\<forall>r\<in>set results. status r = (if dryRun then Skipped else Created)"
    obtain s1 r1 where e1: "processEntry dryRun relPath e s results = (s1, r1)"
      by (cases "processEntry dryRun relPath e s results")
    with run obtain rs1 where r1: "r1 = Inr rs1"
      by (cases r1) auto
    from e1 r1 run have rest: "processDir dryRun relPath es s1 rs1 = (s', Inr rs)"
      by simp
    from "5.IH"(1)[of s1 rs1] e1 r1 acc
    have mid: "\<forall>r\<in>set rs1. status r = (if dryRun then Skipped else Created)"
      by simp
    from "5.IH"(2)[of s1 r1 rs1 s' rs] e1 r1 rest mid
    show "\<forall>r\<in>set rs. status r = (if dryRun then Skipped else Created)"
      by simp
  qed
qed

lemma copyDocs_status:
  assumes "snd (copyDocs dryRun s) = Inr rs"
  shows "\<forall>r \<in> set rs. status r = (if dryRun then Skipped else Created)"
proof -
  from assms obtain tree n es where
    run: "snd (processDir dryRun [] es s []) = Inr rs"
    by (auto simp: copyDocs_def split: option.splits entry.splits)
  obtain s' where "processDir dryRun [] es s [] = (s', Inr rs)"
    using run by (cases "processDir dryRun [] es s []") simp
  with process_status(2)[of dryRun "[]" es s "[]" s' rs] show ?thesis
    by simp
qed

lemma syncDocs_status:
  assumes "snd (syncDocs env dryRun s) = Inr rs"
  shows "\<forall>r \<in> set rs. status r = (if dryRun then Skipped else Created)"
proof -
  from assms obtain content where c: "fetchLlmsTxt env = Inr content"
    by (cases "fetchLlmsTxt env") (auto simp: syncDocs_def)
  let ?run = "write_docs ''https://docs.x.ai'' dryRun (parseLlmsTxt content)
                (if \<not> dryRun then mkdir_resources s else s) []"
  from assms c have "snd ?run = Inr rs"
    by (simp add: syncDocs_def)
  then obtain s' where "?run = (s', Inr rs)"
    by (cases ?run) simp
  from write_docs_status[OF this] show ?thesis
    by simp
qed

lemma syncDocs_tpl_status:
  assumes "snd (syncDocs_tpl env dryRun s) = Inr rs"
  shows "\<forall>r \<in> set rs. status r = (if dryRun then Skipped else Created)"
proof -
  from assms obtain content where c: "fetchLlmsTxt_tpl env = Inr content"
    by (cases "fetchLlmsTxt_tpl env") (auto simp: syncDocs_tpl_def)
  let ?run = "write_docs ''https://docs.example.com'' dryRun (parseLlmsTxt_tpl content)
                (if \<not> dryRun then mkdir_resources s else s) []"
  from assms c have "snd ?run = Inr rs"
    by (simp add: syncDocs_tpl_def)
  then obtain s' where "?run = (s', Inr rs)"
    by (cases ?run) simp
  from write_docs_status[OF this] show ?thesis
    by simp
qed

text \<open>
  C10. Every SyncResult that \<open>copyDocs\<close> of the FastMCP script and \<open>syncDocs\<close> of the
  xAI script and of the llms.txt template return has the status \<open>created\<close> in a run
  that is no dry run and \<open>skipped\<close> in a dry run; \<open>updated\<close> and \<open>unchanged\<close> are
  never produced.
\<close>

theorem status_follows_dry_run:
  "(snd (copyDocs dryRun s) = Inr rs \<longrightarrow>
      (\<forall>r \<in> set rs. status r = (if dryRun then Skipped else Created)))
   \<and> (snd (syncDocs xenv dryRun s) = Inr rs \<longrightarrow>
      (\<forall>r \<in> set rs. status r = (if dryRun then Skipped else Created)))
   \<and> (snd (syncDocs_tpl tenv dryRun s) = Inr rs \<longrightarrow>
      (\<forall>r \<in> set rs. status r = (if dryRun then Skipped else Created)))"
  using copyDocs_status syncDocs_status syncDocs_tpl_status by blast

theorem status_follows_dry_run_witness:
  "snd (copyDocs False fs_cloned) =
     Inr [\<lparr>path = ''b.md'', title = ''B'', status = Created\<rparr>,
          \<lparr>path = ''sub-a.md'', title = ''a'', status = Created\<rparr>]
   \<and> map status [\<lparr>path = ''b.md'', title = ''B'', status = Created\<rparr>,
                  \<lparr>path = ''sub-a.md'', title = ''a'', status = Created\<rparr>]
       = [Created, Created]"
proof -
  have run: "snd (copyDocs False fs_cloned) =
     Inr [\<lparr>path = ''b.md'', title = ''B'', status = Created\<rparr>,
          \<lparr>path = ''sub-a.md'', title = ''a'', status = Created\<rparr>]"
    by code_simp
  with status_follows_dry_run[where dryRun = False and s = fs_cloned] show ?thesis
    by simp
qed

section \<open>Dry runs\<close>

lemma write_docs_dry:
  "write_docs base True docs s acc =
     (s, Inr (acc @ map (\<lambda>(p, body). \<lparr>path = pathToFilename p, title = extractTitle body p,
                                       status = Skipped\<rparr>) docs))"
  by (induction docs arbitrary: acc) (auto simp: Let_def)

lemma process_dry:
  "\<exists>rs. processEntry True rel e s acc = (s, Inr rs) \<and> length rs = length acc + count_docs e"
  "\<exists>rs. processDir True rel es s acc = (s, Inr rs) \<and> length rs = length acc + count_docs_in es"
proof (induction e and es arbitrary: rel acc and rel acc rule: count_docs_count_docs_in.induct)
  case (1 n es)
  then show ?case by simp
next
  case (2 n c)
  then show ?case by (simp add: Let_def)
next
  case (3 n c)
  then show ?case by simp
next
  case 4
  then show ?case by simp
next
  case (5 e es)
  from "5.IH"(1)[of rel acc] obtain rs1 where
    a: "processEntry True rel e s acc = (s, Inr rs1)" "length rs1 = length acc + count_docs e"
    by blast
  from "5.IH"(2)[of rel rs1] obtain rs2 where
    b: "processDir True rel es s rs1 = (s, Inr rs2)" "length rs2 = length rs1 + count_docs_in es"
    by blast
  from a b show ?case by simp
qed

lemma copyDocs_dry_fs: "fst (copyDocs True s) = s"
  using process_dry(2)[of "[]" _ s "[]"]
  by (auto simp: copyDocs_def split: option.split entry.split) (metis fst_conv)

lemma syncDocs_dry_fs: "fst (syncDocs env True s) = s"
  by (simp add: syncDocs_def write_docs_dry split: sum.split)

lemma cloneRepo_resources: "resources (fst (cloneRepo env s)) = resources s"
  by (simp add: cloneRepo_def Let_def split: clone_outcome.split)

lemma try_fastmcp_dry_resources: "resources (fst (try_fastmcp env True s)) = resources s"
proof -
  obtain s1 r1 where c: "cloneRepo env s = (s1, r1)"
    by (cases "cloneRepo env s")
  then have r: "resources s1 = resources s"
    using cloneRepo_resources[of env s] by simp
  obtain s3 r3 where d: "copyDocs True s1 = (s3, r3)"
    by (cases "copyDocs True s1")
  then have "s3 = s1"
    using copyDocs_dry_fs[of s1] by simp
  with c d r show ?thesis
    by (simp add: try_fastmcp_def split: sum.split)
qed

lemma main_fastmcp_dry_resources: "resources (final (main_fastmcp env True s)) = resources s"
  using try_fastmcp_dry_resources[of env s]
  by (cases "try_fastmcp env True s")
     (auto simp: main_fastmcp_def resources_cleanup split: sum.split)

lemma main_xai_dry: "final (main_xai env True s) = s"
  using syncDocs_dry_fs[of env s]
  by (cases "syncDocs env True s") (auto simp: main_xai_def split: sum.split)

lemma syncDocs_dry_results:
  assumes "fetchLlmsTxt env = Inr content"
  shows "\<exists>rs. syncDocs env True s = (s, Inr rs) \<and> length rs = length (parseLlmsTxt content)"
  using assms by (simp add: syncDocs_def write_docs_dry)

lemma copyDocs_dry_results:
  assumes "temp_dir s = Some tree" and "lookup_entry SOURCE_PATH tree = Some (Dir n es)"
  shows "\<exists>rs. copyDocs True s = (s, Inr rs) \<and> length rs = count_docs_in es"
  using assms process_dry(2)[of "[]" es s "[]"] by (simp add: copyDocs_def)

text \<open>
  C3, the claim as it is written, fails: a dry run of the xAI script on a page
  without sections returns the empty result list.
\<close>

theorem dry_run_empty_results: "snd (syncDocs xai_empty True fs0) = Inr []"
  by code_simp

text \<open>
  C3, amended. A dry run writes nothing to the resources directory: the xAI script
  leaves the disk as it was, and the FastMCP script leaves the resources directory
  as it was. The result list has one entry for every acquired document: one for every
  section the parser returns, one for every file the walk selects. It is empty when
  nothing is acquired.
\<close>

theorem dry_run_writes_nothing:
  "final (main_xai xenv True s) = s
   \<and> resources (final (main_fastmcp renv True s)) = resources s
   \<and> (fetchLlmsTxt xenv = Inr content \<longrightarrow>
        (\<exists>rs. syncDocs xenv True s = (s, Inr rs) \<and> length rs = length (parseLlmsTxt content)))
   \<and> (temp_dir s = Some tree \<and> lookup_entry SOURCE_PATH tree = Some (Dir n es) \<longrightarrow>
        (\<exists>rs. copyDocs True s = (s, Inr rs) \<and> length rs = count_docs_in es))"
  using main_xai_dry main_fastmcp_dry_resources syncDocs_dry_results copyDocs_dry_results
  by blast

theorem dry_run_writes_nothing_witness:
  "final (main_xai xai_one True fs_cloned) = fs_cloned
   \<and> resources (final (main_fastmcp repo_ok True fs_cloned)) = resources fs_cloned
   \<and> fetchLlmsTxt xai_one = Inr (spawn_stdout xai_one)
   \<and> (\<exists>rs. syncDocs xai_one True fs_cloned = (fs_cloned, Inr rs) \<and> length rs = 1)
   \<and> temp_dir fs_cloned = Some repo_tree
   \<and> (\<exists>rs. copyDocs True fs_cloned = (fs_cloned, Inr rs) \<and> length rs = 2)"
proof -
  let ?docs = "[File ''b.md'' ''# B'',
                Dir ''sub'' [File ''a.mdx'' ''text'', File ''logo.png'' ''png''],
                Dir ''assets'' [File ''z.md'' ''z'']]"
  have h1: "fetchLlmsTxt xai_one = Inr (spawn_stdout xai_one)"
    by (simp add: fetchLlmsTxt_def xai_one_def)
  have h2: "temp_dir fs_cloned = Some repo_tree"
    by (simp add: fs_cloned_def)
  have h3: "lookup_entry SOURCE_PATH repo_tree = Some (Dir ''docs'' ?docs)"
    by code_simp
  have n1: "length (parseLlmsTxt (spawn_stdout xai_one)) = 1"
    by code_simp
  have n2: "count_docs_in ?docs = 2"
    by code_simp
  from dry_run_writes_nothing[where xenv = xai_one and s = fs_cloned and renv = repo_ok
      and content = "spawn_stdout xai_one" and tree = repo_tree and n = "''docs''" and es = ?docs]
    h1 h2 h3 n1 n2
  show ?thesis by simp
qed

section \<open>The direct-fetch template: a failed fetch\<close>




lemma dirname_manifest: "dirname ''manifest.json'' = []"
  by (simp add: dirname_def)

lemma writeFile_manifest_files:
  assumes "writeFile ''manifest.json'' (JsonDirect mf) s = Inr s'"
  shows "manifest_files s' = Some (map fst (d_files mf))"
  using assms
  by (auto simp: writeFile_def manifest_files_def split: option.splits if_splits)




lemma direct_step_rejected: "rejected (direct_step env dryRun p st) = rejected st"
  by (simp add: direct_step_def Let_def split: sum.split)

text \<open>A turn either pushes one result, for its path, and counts a success, or pushes
  nothing and counts a failure.\<close>

lemma direct_step_cases:
  "(fetched env p
      \<and> map d_path (results (direct_step env dryRun p st)) = map d_path (results st) @ [p]
      \<and> synced (direct_step env dryRun p st) = synced st + 1
      \<and> failed (direct_step env dryRun p st) = failed st)
   \<or> (results (direct_step env dryRun p st) = results st
      \<and> synced (direct_step env dryRun p st) = synced st
      \<and> failed (direct_step env dryRun p st) = failed st + 1)"
proof (cases "fetchDoc env p")
  case (Inl e)
  then show ?thesis by (simp add: direct_step_def)
next
  case (Inr content)
  then have "fetched env p"
    by (simp add: fetched_def)
  with Inr show ?thesis
    by (simp add: direct_step_def Let_def split: sum.split)
qed

lemma direct_loop_subseq:
  "\<exists>xs. map d_path (results (direct_loop env dryRun ps st)) = map d_path (results st) @ xs
        \<and> subseq xs (filter (fetched env) ps)"
proof (induction ps arbitrary: st)
  case Nil
  then show ?case by simp
next
  case (Cons p ps)
  let ?st = "direct_step env dryRun p st"
  from Cons.IH[of ?st] obtain xs where
    xs: "map d_path (results (direct_loop env dryRun ps ?st)) = map d_path (results ?st) @ xs"
    and sub: "subseq xs (filter (fetched env) ps)"
    by blast
  from direct_step_cases[of env p dryRun st] show ?case
  proof
    assume ok: "fetched env p
      \<and> map d_path (results ?st) = map d_path (results st) @ [p]
      \<and> synced ?st = synced st + 1 \<and> failed ?st = failed st"
    with xs have "map d_path (results (direct_loop env dryRun (p # ps) st)) =
        map d_path (results st) @ (p # xs)"
      by simp
    moreover from ok sub have "subseq (p # xs) (filter (fetched env) (p # ps))"
      by simp
    ultimately show ?thesis by blast
  next
    assume no: "results ?st = results st \<and> synced ?st = synced st \<and> failed ?st = failed st + 1"
    with xs have "map d_path (results (direct_loop env dryRun (p # ps) st)) =
        map d_path (results st) @ xs"
      by simp
    moreover from sub have "subseq xs (filter (fetched env) (p # ps))"
      by (auto intro: list_emb_Cons)
    ultimately show ?thesis by blast
  qed
qed



lemma direct_loop_rejected: "rejected (direct_loop env dryRun ps st) = rejected st"
  by (induction ps arbitrary: st) (simp_all add: direct_step_rejected)



text \<open>The whole run.\<close>

lemma run_direct_fields:
  "results (run_direct env dryRun s) =
     results (direct_loop env dryRun (DOC_PATHS env) (direct_init s))"
  "synced (run_direct env dryRun s) =
     synced (direct_loop env dryRun (DOC_PATHS env) (direct_init s))"
  "failed (run_direct env dryRun s) =
     failed (direct_loop env dryRun (DOC_PATHS env) (direct_init s))"
  by (auto simp: run_direct_def Let_def split: sum.split)

lemma run_direct_subseq:
  "subseq (map d_path (results (run_direct env dryRun s))) (filter (fetched env) (DOC_PATHS env))"
  using direct_loop_subseq[where env = env and dryRun = dryRun and ps = "DOC_PATHS env"
      and st = "direct_init s"]
  by (auto simp: run_direct_fields direct_init_def)





lemma run_direct_manifest:
  assumes "results (run_direct env False s) \<noteq> []"
    and "rejected (run_direct env False s) = None"
  shows "manifest_files (d_fs (run_direct env False s)) =
           Some (map d_path (results (run_direct env False s)))"
proof -
  let ?loop = "direct_loop env False (DOC_PATHS env) (direct_init s)"
  let ?mf = "\<lparr>d_source = BASE_URL env, d_syncedAt = direct_now env,
                    d_fileCount = length (results ?loop),
                    d_files = map (\<lambda>r. (d_path r, d_hash r)) (results ?loop)\<rparr>"
  from assms(1) have ne: "results ?loop \<noteq> []"
    by (simp add: run_direct_fields)
  have run: "run_direct env False s =
      (case writeFile ''manifest.json'' (JsonDirect ?mf) (d_fs ?loop) of
         Inl e \<Rightarrow> ?loop\<lparr>errors := errors ?loop @ [e], rejected := Some e\<rparr>
       | Inr s' \<Rightarrow> ?loop\<lparr>d_fs := s'\<rparr>)"
    using ne by (simp add: run_direct_def Let_def)
  have paths: "map fst (d_files ?mf) = map d_path (results ?loop)"
    by (simp add: comp_def)
  show ?thesis
  proof (cases "writeFile ''manifest.json'' (JsonDirect ?mf) (d_fs ?loop)")
    case (Inl e)
    then have "rejected (run_direct env False s) = Some e"
      by (simp add: run)
    with assms(2) show ?thesis by simp
  next
    case (Inr s')
    then have "d_fs (run_direct env False s) = s'"
      by (simp add: run)
    with writeFile_manifest_files[OF Inr] paths show ?thesis
      by (simp add: run_direct_fields)
  qed
qed

lemma run_direct_dry_rejected: "rejected (run_direct env True s) = None"
  by (simp add: run_direct_def Let_def direct_loop_rejected direct_init_def)





section \<open>The order of the manifest\<close>

lemma sort_mset_eq:
  fixes xs ys :: "string list"
  assumes "mset xs = mset ys"
  shows "sort xs = sort ys"
  by (rule properties_for_sort) (simp_all add: assms)

lemma manifest_files_written:
  assumes "writeFile ''manifest.json'' (Json mf) s = Inr s'"
  shows "manifest_files s' = Some (files mf)"
  using assms by (auto simp: writeFile_def manifest_files_def split: option.splits if_splits)

lemma writeManifest_fastmcp_files:
  "writeManifest_fastmcp env c rs s = Inr s' \<Longrightarrow> manifest_files s' = Some (sort (map path rs))"
  unfolding writeManifest_fastmcp_def by (drule manifest_files_written) simp

lemma writeManifest_files:
  "writeManifest url now rs s = Inr s' \<Longrightarrow> manifest_files s' = Some (sort (map path rs))"
  unfolding writeManifest_def by (drule manifest_files_written) simp

lemma writeManifest_github_files:
  "writeManifest_github env grs c False s = Inr s' \<Longrightarrow>
   manifest_files s' = Some (sort (map g_path grs))"
  unfolding writeManifest_github_def by simp (drule manifest_files_written, simp)

lemma main_direct_final: "final (main_direct env dryRun s) = d_fs (run_direct env dryRun s)"
  by (simp add: main_direct_def Let_def)

lemma main_direct_manifest:
  "manifest_files (final (main_direct env dryRun s)) = manifest_files (d_fs (run_direct env dryRun s))"
  by (simp add: main_direct_def Let_def)

lemma writeManifest_fastmcp_order:
  assumes "writeManifest_fastmcp env c rs s = Inr s'"
    and "writeManifest_fastmcp env2 c2 rs2 s2 = Inr t2"
    and "mset (map path rs) = mset (map path rs2)"
  shows "manifest_files s' = manifest_files t2"
  using writeManifest_fastmcp_files[OF assms(1)] writeManifest_fastmcp_files[OF assms(2)]
    sort_mset_eq[OF assms(3)] by simp

lemma writeManifest_order:
  assumes "writeManifest url now rs s = Inr s'"
    and "writeManifest url2 now2 rs2 s2 = Inr t2"
    and "mset (map path rs) = mset (map path rs2)"
  shows "manifest_files s' = manifest_files t2"
  using writeManifest_files[OF assms(1)] writeManifest_files[OF assms(2)]
    sort_mset_eq[OF assms(3)] by simp

lemma writeManifest_github_order:
  assumes "writeManifest_github env grs c False s = Inr s'"
    and "writeManifest_github env2 grs2 c2 False s2 = Inr t2"
    and "mset (map g_path grs) = mset (map g_path grs2)"
  shows "manifest_files s' = manifest_files t2"
  using writeManifest_github_files[OF assms(1)] writeManifest_github_files[OF assms(2)]
    sort_mset_eq[OF assms(3)] by simp

lemma sorted_manifest:
  fixes xs :: "string list"
  shows "\<exists>fl. Some (sort xs) = Some fl \<and> sorted fl \<and> mset fl = mset xs"
  by simp

text \<open>
  C8, the claim as it is written, fails: the direct-fetch template writes the files
  of its manifest in the order of the fetches. Two runs that fetch the same two
  documents in the two orders write two different lists, and the first is not sorted.
\<close>

theorem direct_manifest_in_fetch_order:
  "manifest_files (final (main_direct env_ca False fs0)) = Some [''c.md'', ''a.md'']
   \<and> manifest_files (final (main_direct env_ac False fs0)) = Some [''a.md'', ''c.md'']"
  by code_simp

text \<open>
  C8, amended. The manifests that \<open>writeManifest\<close> of the FastMCP script, of the
  llms.txt scripts and of the GitHub template write list the paths of the results
  sorted, so two runs that acquire the same documents in different orders write the
  same list. The manifest that the direct-fetch template writes lists the paths of
  its results as they were pushed, in the order of \<open>DOC_PATHS\<close>, not sorted.
\<close>

theorem manifest_files_sorted:
  "(writeManifest_fastmcp env c rs s = Inr s' \<longrightarrow>
      (\<exists>fl. manifest_files s' = Some fl \<and> sorted fl \<and> mset fl = mset (map path rs)))
   \<and> (writeManifest url now rs s = Inr s' \<longrightarrow>
      (\<exists>fl. manifest_files s' = Some fl \<and> sorted fl \<and> mset fl = mset (map path rs)))
   \<and> (writeManifest_github env grs c False s = Inr s' \<longrightarrow>
      (\<exists>fl. manifest_files s' = Some fl \<and> sorted fl \<and> mset fl = mset (map g_path grs)))
   \<and> (writeManifest_fastmcp env c rs s = Inr s' \<and> writeManifest_fastmcp env2 c2 rs2 s2 = Inr t2
        \<and> mset (map path rs) = mset (map path rs2) \<longrightarrow> manifest_files s' = manifest_files t2)
   \<and> (writeManifest url now rs s = Inr s' \<and> writeManifest url2 now2 rs2 s2 = Inr t2
        \<and> mset (map path rs) = mset (map path rs2) \<longrightarrow> manifest_files s' = manifest_files t2)
   \<and> (writeManifest_github env grs c False s = Inr s'
        \<and> writeManifest_github env2 grs2 c2 False s2 = Inr t2
        \<and> mset (map g_path grs) = mset (map g_path grs2) \<longrightarrow> manifest_files s' = manifest_files t2)
   \<and> (\<not> dryRun \<and> results (run_direct denv dryRun ds) \<noteq> []
        \<and> rejected (run_direct denv dryRun ds) = None \<longrightarrow>
        manifest_files (final (main_direct denv dryRun ds)) =
          Some (map d_path (results (run_direct denv dryRun ds))))
   \<and> subseq (map d_path (results (run_direct denv dryRun ds))) (DOC_PATHS denv)"
proof (intro conjI impI)
  assume "writeManifest_fastmcp env c rs s = Inr s'"
  from writeManifest_fastmcp_files[OF this] sorted_manifest[of "map path rs"]
  show "\<exists>fl. manifest_files s' = Some fl \<and> sorted fl \<and> mset fl = mset (map path rs)"
    by simp
next
  assume "writeManifest url now rs s = Inr s'"
  from writeManifest_files[OF this] sorted_manifest[of "map path rs"]
  show "\<exists>fl. manifest_files s' = Some fl \<and> sorted fl \<and> mset fl = mset (map path rs)"
    by simp
next
  assume "writeManifest_github env grs c False s = Inr s'"
  from writeManifest_github_files[OF this] sorted_manifest[of "map g_path grs"]
  show "\<exists>fl. manifest_files s' = Some fl \<and> sorted fl \<and> mset fl = mset (map g_path grs)"
    by simp
next
  assume "writeManifest_fastmcp env c rs s = Inr s' \<and> writeManifest_fastmcp env2 c2 rs2 s2 = Inr t2
        \<and> mset (map path rs) = mset (map path rs2)"
  then show "manifest_files s' = manifest_files t2"
    using writeManifest_fastmcp_order by blast
next
  assume "writeManifest url now rs s = Inr s' \<and> writeManifest url2 now2 rs2 s2 = Inr t2
        \<and> mset (map path rs) = mset (map path rs2)"
  then show "manifest_files s' = manifest_files t2"
    using writeManifest_order by blast
next
  assume "writeManifest_github env grs c False s = Inr s'
        \<and> writeManifest_github env2 grs2 c2 False s2 = Inr t2
        \<and> mset (map g_path grs) = mset (map g_path grs2)"
  then show "manifest_files s' = manifest_files t2"
    using writeManifest_github_order by blast
next
  assume "\<not> dryRun \<and> results (run_direct denv dryRun ds) \<noteq> []
        \<and> rejected (run_direct denv dryRun ds) = None"
  then show "manifest_files (final (main_direct denv dryRun ds)) =
      Some (map d_path (results (run_direct denv dryRun ds)))"
    using run_direct_manifest[of denv ds]
    by (cases dryRun) (simp_all add: main_direct_manifest main_direct_final)
next
  have "subseq (filter (fetched denv) (DOC_PATHS denv)) (DOC_PATHS denv)"
    by simp
  with run_direct_subseq[of denv dryRun ds]
  show "subseq (map d_path (results (run_direct denv dryRun ds))) (DOC_PATHS denv)"
    by (rule subseq_order.trans)
qed


theorem manifest_files_sorted_witness:
  "(\<exists>s1 s2. writeManifest_fastmcp repo_ok ''0a1b2c3'' results_ba fs_cloned = Inr s1
        \<and> writeManifest_fastmcp repo_ok ''0a1b2c3'' results_ab fs_cloned = Inr s2
        \<and> manifest_files s1 = Some [''a.md'', ''sub-b.md'']
        \<and> manifest_files s1 = manifest_files s2)
   \<and> (\<exists>s1 s2. writeManifest ''https://docs.x.ai/llms.txt'' ''now'' results_ba fs_cloned = Inr s1
        \<and> writeManifest ''https://docs.x.ai/llms.txt'' ''now'' results_ab fs_cloned = Inr s2
        \<and> manifest_files s1 = Some [''a.md'', ''sub-b.md'']
        \<and> manifest_files s1 = manifest_files s2)
   \<and> (\<exists>s1 s2. writeManifest_github repo_ok gresults_ba ''0a1b2c3'' False fs_cloned = Inr s1
        \<and> writeManifest_github repo_ok gresults_ab ''0a1b2c3'' False fs_cloned = Inr s2
        \<and> manifest_files s1 = Some [''a.md'', ''sub/b.md'']
        \<and> manifest_files s1 = manifest_files s2)
   \<and> manifest_files (final (main_direct env_ca False fs0)) = Some [''c.md'', ''a.md'']"
proof -
  have p: "mset (map path results_ba) = mset (map path results_ab)"
    by (simp add: results_ba_def results_ab_def)
  have g: "mset (map g_path gresults_ba) = mset (map g_path gresults_ab)"
    by (simp add: gresults_ba_def gresults_ab_def)
  have sp: "map path results_ba = [''sub-b.md'', ''a.md'']"
    by (simp add: results_ba_def)
  have sg: "map g_path gresults_ba = [''sub/b.md'', ''a.md'']"
    by (simp add: gresults_ba_def)
  have only: "\<And>fl a b. sorted fl \<Longrightarrow> mset fl = mset [b, a] \<Longrightarrow> a < b \<Longrightarrow> fl = [a, (b::string)]"
  proof -
    fix fl and a b :: string
    assume "sorted fl" and "mset fl = mset [b, a]" and "a < b"
    then have "sort [b, a] = fl"
      by (intro properties_for_sort) simp_all
    with \<open>a < b\<close> show "fl = [a, b]"
      by auto
  qed
  have lt1: "''a.md'' < ''sub-b.md''"
    by simp
  have lt2: "''a.md'' < ''sub/b.md''"
    by simp
  obtain f1 where f1: "writeManifest_fastmcp repo_ok ''0a1b2c3'' results_ba fs_cloned = Inr f1"
    by (simp add: writeManifest_fastmcp_def writeFile_def fs_cloned_def dirname_manifest)
  obtain f2 where f2: "writeManifest_fastmcp repo_ok ''0a1b2c3'' results_ab fs_cloned = Inr f2"
    by (simp add: writeManifest_fastmcp_def writeFile_def fs_cloned_def dirname_manifest)
  obtain l1 where l1: "writeManifest ''https://docs.x.ai/llms.txt'' ''now'' results_ba fs_cloned = Inr l1"
    by (simp add: writeManifest_def writeFile_def fs_cloned_def dirname_manifest)
  obtain l2 where l2: "writeManifest ''https://docs.x.ai/llms.txt'' ''now'' results_ab fs_cloned = Inr l2"
    by (simp add: writeManifest_def writeFile_def fs_cloned_def dirname_manifest)
  obtain g1 where g1: "writeManifest_github repo_ok gresults_ba ''0a1b2c3'' False fs_cloned = Inr g1"
    by (simp add: writeManifest_github_def writeFile_def fs_cloned_def dirname_manifest)
  obtain g2 where g2: "writeManifest_github repo_ok gresults_ab ''0a1b2c3'' False fs_cloned = Inr g2"
    by (simp add: writeManifest_github_def writeFile_def fs_cloned_def dirname_manifest)
  have d: "results (run_direct env_ca False fs0) \<noteq> []
      \<and> rejected (run_direct env_ca False fs0) = None"
    by code_simp
  have dp: "map d_path (results (run_direct env_ca False fs0)) = [''c.md'', ''a.md'']"
    by code_simp
  note inst = manifest_files_sorted[where dryRun = False and denv = env_ca and ds = fs0]
  note i1 = inst[where env = repo_ok and c = "''0a1b2c3''" and rs = results_ba and s = fs_cloned
      and s' = f1 and ?env2.0 = repo_ok and ?c2.0 = "''0a1b2c3''" and ?rs2.0 = results_ab
      and ?s2.0 = fs_cloned and ?t2.0 = f2]
  from i1 f1 obtain fl1 where fl1: "manifest_files f1 = Some fl1" "sorted fl1"
      "mset fl1 = mset (map path results_ba)"
    by blast
  from i1 f1 f2 p have a2: "manifest_files f1 = manifest_files f2"
    by blast
  from fl1 sp have "fl1 = [''a.md'', ''sub-b.md'']"
    by (intro only[OF _ _ lt1]) simp_all
  with fl1 a2
  have a: "manifest_files f1 = Some [''a.md'', ''sub-b.md''] \<and> manifest_files f1 = manifest_files f2"
    by simp
  note i2 = inst[where url = "''https://docs.x.ai/llms.txt''" and now = "''now''"
      and rs = results_ba and s = fs_cloned and s' = l1
      and ?url2.0 = "''https://docs.x.ai/llms.txt''" and ?now2.0 = "''now''"
      and ?rs2.0 = results_ab and ?s2.0 = fs_cloned and ?t2.0 = l2]
  from i2 l1 obtain fl2 where fl2: "manifest_files l1 = Some fl2" "sorted fl2"
      "mset fl2 = mset (map path results_ba)"
    by blast
  from i2 l1 l2 p have b2: "manifest_files l1 = manifest_files l2"
    by blast
  from fl2 sp have "fl2 = [''a.md'', ''sub-b.md'']"
    by (intro only[OF _ _ lt1]) simp_all
  with fl2 b2
  have b: "manifest_files l1 = Some [''a.md'', ''sub-b.md''] \<and> manifest_files l1 = manifest_files l2"
    by simp
  note i3 = inst[where env = repo_ok and c = "''0a1b2c3''" and grs = gresults_ba and s = fs_cloned
      and s' = g1 and ?env2.0 = repo_ok and ?c2.0 = "''0a1b2c3''" and ?grs2.0 = gresults_ab
      and ?s2.0 = fs_cloned and ?t2.0 = g2]
  from i3 g1 obtain fl3 where fl3: "manifest_files g1 = Some fl3" "sorted fl3"
      "mset fl3 = mset (map g_path gresults_ba)"
    by blast
  from i3 g1 g2 g have c2: "manifest_files g1 = manifest_files g2"
    by blast
  from fl3 sg have "fl3 = [''a.md'', ''sub/b.md'']"
    by (intro only[OF _ _ lt2]) simp_all
  with fl3 c2
  have c: "manifest_files g1 = Some [''a.md'', ''sub/b.md''] \<and> manifest_files g1 = manifest_files g2"
    by simp
  from inst d have "manifest_files (final (main_direct env_ca False fs0)) =
      Some (map d_path (results (run_direct env_ca False fs0)))"
    by blast
  then have e: "manifest_files (final (main_direct env_ca False fs0)) = Some [''c.md'', ''a.md'']"
    unfolding dp .
  from a b c e f1 f2 l1 l2 g1 g2 show ?thesis
    by blast
qed

section \<open>The exit status\<close>

lemma main_fastmcp_failure:
  "snd (try_fastmcp env dryRun s) = Inl e \<Longrightarrow>
   exit_code (main_fastmcp env dryRun s) = 1 \<and> stderr (main_fastmcp env dryRun s) = [e]"
  by (cases "try_fastmcp env dryRun s") (simp add: main_fastmcp_def)

lemma main_github_failure:
  "snd (try_github env dryRun s) = Inl e \<Longrightarrow>
   exit_code (main_github env dryRun s) = 0 \<and> stderr (main_github env dryRun s) = [e]"
  by (cases "try_github env dryRun s") (simp add: main_github_def)

text \<open>
  C7. When the clone fails, or when the clone has no source directory, the GitHub
  template prints the error and the process ends with status 0: its last line is
  \<open>main().catch(console.error)\<close>. The FastMCP script, whose handler calls
  \<open>process.exit(1)\<close>, ends with status 1 on the same inputs.
\<close>

theorem github_fatal_error_exit_status:
  "stderr (main_github repo_clone_fails False fs_stale) =
     [Error ''fatal: unable to access the repository'']
   \<and> exit_code (main_github repo_clone_fails False fs_stale) = 0
   \<and> stderr (main_github repo_no_docs False fs0) = [Error ''Source path not found: docs'']
   \<and> exit_code (main_github repo_no_docs False fs0) = 0
   \<and> exit_code (main_fastmcp repo_clone_fails False fs_stale) = 1
   \<and> exit_code (main_fastmcp repo_no_docs False fs0) = 1"
  by code_simp

section \<open>PathMapper\<close>

lemma set_collapse_dashes: "set (collapse_dashes s) \<subseteq> set s"
  by (induction s rule: collapse_dashes.induct) auto

lemma hd_collapse_dashes: "collapse_dashes (a # s) = a # tl (collapse_dashes (a # s))"
  by (induction "a # s" arbitrary: a s rule: collapse_dashes.induct) auto

lemma no_double_dash_collapse: "\<not> double_dash (collapse_dashes s)"
proof (induction s rule: collapse_dashes.induct)
  case (1 a b s)
  obtain t where t: "collapse_dashes (b # s) = b # t"
    using hd_collapse_dashes[of b s] by blast
  with 1 show ?case by auto
qed simp_all

lemma double_dash_Cons: "c \<noteq> CHR ''-'' \<Longrightarrow> double_dash (c # t) = double_dash t"
  by (cases t) auto

lemma double_dash_append:
  "\<not> double_dash s \<Longrightarrow> c \<noteq> CHR ''-'' \<Longrightarrow> \<not> double_dash t \<Longrightarrow> \<not> double_dash (s @ c # t)"
proof (induction s)
  case Nil
  then show ?case by (simp add: double_dash_Cons)
next
  case (Cons a s)
  show ?case
  proof (cases s)
    case Nil
    with Cons.prems show ?thesis by (simp add: double_dash_Cons)
  next
    case (Cons b s')
    with Cons.prems Cons.IH show ?thesis by simp
  qed
qed

lemma collapse_dashes_Cons:
  "c \<noteq> CHR ''-'' \<Longrightarrow> collapse_dashes (c # t) = c # collapse_dashes t"
  by (cases t) simp_all

lemma collapse_dashes_append:
  "c \<noteq> CHR ''-'' \<Longrightarrow> collapse_dashes (s @ c # t) = collapse_dashes s @ c # collapse_dashes t"
proof (induction s)
  case Nil
  then show ?case by (simp add: collapse_dashes_Cons)
next
  case (Cons a s)
  show ?case
  proof (cases s)
    case Nil
    with Cons.prems show ?thesis by (simp add: collapse_dashes_Cons)
  next
    case (Cons b s')
    with Cons.prems Cons.IH show ?thesis by auto
  qed
qed

lemma prefix_append_notin:
  "prefix xs (q @ c # t) \<Longrightarrow> c \<notin> set xs \<Longrightarrow> prefix xs q"
proof (induction xs arbitrary: q)
  case Nil
  then show ?case by simp
next
  case (Cons x xs)
  show ?case
  proof (cases q)
    case Nil
    with Cons.prems show ?thesis by simp
  next
    case (Cons a q')
    with Cons.prems have "x = a" and "prefix xs (q' @ c # t)" and "c \<notin> set xs"
      by simp_all
    with Cons.IH[of q'] Cons show ?thesis
      by simp
  qed
qed

lemma strip_docs_prefix_append:
  assumes "c \<notin> set ''docs/''"
  shows "\<exists>q'. strip_docs_prefix (q @ c # t) = q' @ c # t"
proof (cases "prefix ''docs/'' (q @ c # t)")
  case False
  then have "strip_docs_prefix (q @ c # t) = q @ c # t"
    unfolding strip_docs_prefix_def by (rule if_not_P)
  then show ?thesis by blast
next
  case True
  from prefix_append_notin[OF True assms] have "prefix ''docs/'' q" .
  then obtain q' where q: "q = ''docs/'' @ q'"
    unfolding prefix_def by blast
  have "drop 5 (q @ c # t) = q' @ c # t"
    unfolding q by simp
  moreover have "strip_docs_prefix (q @ c # t) = drop 5 (q @ c # t)"
    unfolding strip_docs_prefix_def using True by (rule if_P)
  ultimately show ?thesis by simp
qed

lemma slashes_to_dashes_append:
  "slashes_to_dashes (q @ t) = slashes_to_dashes q @ slashes_to_dashes t"
  by (simp add: slashes_to_dashes_def)

lemma pathToFilename_suffix_md: "suffix ''.md'' (pathToFilename p)"
  by (simp add: pathToFilename_def suffix_def)

lemma pathToFilename_no_slash: "CHR ''/'' \<notin> set (pathToFilename p)"
proof -
  have "CHR ''/'' \<notin> set (slashes_to_dashes (strip_docs_prefix p))"
    by (auto simp: slashes_to_dashes_def)
  with set_collapse_dashes show ?thesis
    by (auto simp: pathToFilename_def)
qed

lemma pathToFilename_no_double_dash: "\<not> double_dash (pathToFilename p)"
  unfolding pathToFilename_def
  using double_dash_append[OF no_double_dash_collapse, of "CHR ''.''" "''md''"]
  by simp


lemma pathToFilename_keeps_mdx_ext:
  assumes "suffix ''.mdx'' p"
  shows "suffix ''.mdx.md'' (pathToFilename p)"
proof -
  from assms obtain q where p: "p = q @ CHR ''.'' # ''mdx''"
    by (auto simp: suffix_def)
  obtain q' where q': "strip_docs_prefix (q @ CHR ''.'' # ''mdx'') = q' @ CHR ''.'' # ''mdx''"
    using strip_docs_prefix_append[of "CHR ''.''" q "''mdx''"] by auto
  have sd: "slashes_to_dashes (q' @ CHR ''.'' # ''mdx'') = slashes_to_dashes q' @ CHR ''.'' # ''mdx''"
    by (simp add: slashes_to_dashes_def)
  have cd: "collapse_dashes (slashes_to_dashes q' @ CHR ''.'' # ''mdx'') =
      collapse_dashes (slashes_to_dashes q') @ CHR ''.'' # collapse_dashes ''mdx''"
    by (rule collapse_dashes_append) simp
  have "collapse_dashes ''mdx'' = ''mdx''"
    by simp
  with p q' sd cd have "pathToFilename p = collapse_dashes (slashes_to_dashes q') @ ''.mdx.md''"
    by (simp add: pathToFilename_def)
  then show ?thesis
    by (simp add: suffix_def)
qed

lemma pathToFilename_keeps_md_ext:
  assumes "suffix ''.md'' p"
  shows "suffix ''.md.md'' (pathToFilename p)"
proof -
  from assms obtain q where p: "p = q @ CHR ''.'' # ''md''"
    by (auto simp: suffix_def)
  obtain q' where q': "strip_docs_prefix (q @ CHR ''.'' # ''md'') = q' @ CHR ''.'' # ''md''"
    using strip_docs_prefix_append[of "CHR ''.''" q "''md''"] by auto
  have sd: "slashes_to_dashes (q' @ CHR ''.'' # ''md'') = slashes_to_dashes q' @ CHR ''.'' # ''md''"
    by (simp add: slashes_to_dashes_def)
  have cd: "collapse_dashes (slashes_to_dashes q' @ CHR ''.'' # ''md'') =
      collapse_dashes (slashes_to_dashes q') @ CHR ''.'' # collapse_dashes ''md''"
    by (rule collapse_dashes_append) simp
  have "collapse_dashes ''md'' = ''md''"
    by simp
  with p q' sd cd have "pathToFilename p = collapse_dashes (slashes_to_dashes q') @ ''.md.md''"
    by (simp add: pathToFilename_def)
  then show ?thesis
    by (simp add: suffix_def)
qed

lemma mdx_to_md_not_mdx: "\<not> suffix ''.mdx'' (mdx_to_md s)"
  by (auto simp: mdx_to_md_def suffix_def)

lemma mdx_to_md_suffix_md:
  "suffix ''.mdx'' s \<or> suffix ''.md'' s \<Longrightarrow> suffix ''.md'' (mdx_to_md s)"
  by (auto simp: mdx_to_md_def suffix_def)

lemma outputName_ext:
  assumes "suffix ''.mdx'' n \<or> suffix ''.md'' n"
  shows "suffix ''.md'' (outputName rel n) \<and> \<not> suffix ''.mdx'' (outputName rel n)"
proof -
  from assms have "suffix ''.mdx'' (slashes_to_dashes rel @ ''-'' @ n)
      \<or> suffix ''.md'' (slashes_to_dashes rel @ ''-'' @ n)"
    by (metis suffix_append append_assoc)
  with assms show ?thesis
    by (simp add: outputName_def mdx_to_md_not_mdx mdx_to_md_suffix_md)
qed


text \<open>
  C2, the claim as it is written, fails: \<open>pathToFilename\<close> appends \<open>.md\<close> to whatever
  it is given, so a path that ends in \<open>.mdx\<close> or \<open>.md\<close> keeps that ending in front of
  the new one.
\<close>

theorem pathToFilename_keeps_extension:
  "pathToFilename ''a/b/c.mdx'' = ''a-b-c.mdx.md'' \<and> pathToFilename ''docs/x.md'' = ''x.md.md''"
  by code_simp

text \<open>
  C2, amended. \<open>pathToFilename\<close> forces the extension of every output to \<open>.md\<close> by
  appending \<open>.md\<close> always: the output ends in \<open>.md\<close>, holds no slash and no two dashes
  side by side, and a path that ends in \<open>.mdx\<close> or \<open>.md\<close> gives an output that ends in
  \<open>.mdx.md\<close> or \<open>.md.md\<close>; a path without extension, \<open>docs/guides/chat\<close>, gives
  \<open>guides-chat.md\<close>. The rewriting of a trailing \<open>.mdx\<close> to \<open>.md\<close> is what the flat
  output name of the FastMCP copier does, for the \<open>.md\<close> and \<open>.mdx\<close> files it selects:
  the file \<open>c.mdx\<close> in the directory \<open>a/b\<close> becomes \<open>a-b-c.md\<close>, the file \<open>x.md\<close> of
  the source directory \<open>x.md\<close>.
\<close>

theorem pathToFilename_appends_md:
  "suffix ''.md'' (pathToFilename p)
   \<and> CHR ''/'' \<notin> set (pathToFilename p)
   \<and> \<not> double_dash (pathToFilename p)
   \<and> (suffix ''.mdx'' p \<longrightarrow> suffix ''.mdx.md'' (pathToFilename p))
   \<and> (suffix ''.md'' p \<longrightarrow> suffix ''.md.md'' (pathToFilename p))
   \<and> pathToFilename ''docs/guides/chat'' = ''guides-chat.md''
   \<and> (suffix ''.mdx'' n \<or> suffix ''.md'' n \<longrightarrow>
        suffix ''.md'' (outputName rel n) \<and> \<not> suffix ''.mdx'' (outputName rel n))
   \<and> outputName ''a/b'' ''c.mdx'' = ''a-b-c.md''
   \<and> outputName [] ''x.md'' = ''x.md''"
proof -
  have "pathToFilename ''docs/guides/chat'' = ''guides-chat.md''"
    by code_simp
  moreover have "outputName ''a/b'' ''c.mdx'' = ''a-b-c.md''"
    by code_simp
  moreover have "outputName [] ''x.md'' = ''x.md''"
    by code_simp
  ultimately show ?thesis
    using pathToFilename_suffix_md pathToFilename_no_slash pathToFilename_no_double_dash
      pathToFilename_keeps_mdx_ext pathToFilename_keeps_md_ext outputName_ext
    by blast
qed

theorem pathToFilename_appends_md_witness:
  "suffix ''.mdx'' ''a/b/c.mdx''
   \<and> suffix ''.mdx.md'' (pathToFilename ''a/b/c.mdx'')
   \<and> suffix ''.md'' ''docs/x.md''
   \<and> suffix ''.md.md'' (pathToFilename ''docs/x.md'')
   \<and> suffix ''.md'' (outputName ''a/b'' ''c.mdx'')
   \<and> \<not> suffix ''.mdx'' (outputName ''a/b'' ''c.mdx'')"
proof -
  have h1: "suffix ''.mdx'' ''a/b/c.mdx''"
    by (simp add: suffix_def)
  have h2: "suffix ''.md'' ''docs/x.md''"
    by (simp add: suffix_def)
  have h3: "suffix ''.mdx'' ''c.mdx''"
    by (simp add: suffix_def)
  from pathToFilename_appends_md[where p = "''a/b/c.mdx''" and n = "''c.mdx''" and rel = "''a/b''"]
    pathToFilename_appends_md[where p = "''docs/x.md''" and n = "''c.mdx''" and rel = "''a/b''"]
    h1 h2 h3
  show ?thesis by blast
qed

section \<open>SectionParser\<close>

lemma split_sections_nonempty: "split_sections s \<noteq> []"
  by (induction s) (auto split: list.split)

lemma at_delim_append:
  assumes "at_delim rest" and "pre \<noteq> []"
  shows "at_delim (pre @ rest) = at_delim pre"
proof -
  from assms(1) obtain r where rest: "rest = CHR ''='' # CHR ''='' # CHR ''='' # CHR ''/'' # r"
    by (auto simp: at_delim_def prefix_def)
  show ?thesis
  proof (cases pre)
    case Nil
    with assms(2) show ?thesis by simp
  next
    case p1: (Cons a l1)
    show ?thesis
    proof (cases l1)
      case Nil
      with p1 rest show ?thesis by (simp add: at_delim_def)
    next
      case p2: (Cons b l2)
      show ?thesis
      proof (cases l2)
        case Nil
        with p1 p2 rest show ?thesis by (simp add: at_delim_def)
      next
        case p3: (Cons c l3)
        show ?thesis
        proof (cases l3)
          case Nil
          with p1 p2 p3 rest show ?thesis by (simp add: at_delim_def)
        next
          case (Cons d l4)
          with p1 p2 p3 show ?thesis by (simp add: at_delim_def)
        qed
      qed
    qed
  qed
qed

lemma split_sections_append:
  assumes "at_delim rest" and "pre \<noteq> []"
  shows "split_sections (pre @ rest) = split_sections pre @ split_sections rest"
  using assms(2)
proof (induction pre)
  case Nil
  then show ?case by simp
next
  case (Cons c pre)
  show ?case
  proof (cases "pre = []")
    case True
    with assms(1) show ?thesis
      by (simp add: at_delim_def)
  next
    case False
    obtain s ss where ss: "split_sections pre = s # ss"
      using split_sections_nonempty[of pre] by (cases "split_sections pre") auto
    from False Cons.IH have ih: "split_sections (pre @ rest) = split_sections pre @ split_sections rest"
      by simp
    from at_delim_append[OF assms(1) False] ih ss show ?thesis
      by simp
  qed
qed

lemma has_delim_at: "at_delim s \<Longrightarrow> has_delim s"
  by (cases s) (auto simp: at_delim_def)

lemma not_has_delim_split: "\<not> has_delim s \<Longrightarrow> split_sections s = [s]"
proof (induction s)
  case Nil
  then show ?case by simp
next
  case (Cons c s)
  from Cons.prems have n: "\<not> has_delim s"
    by simp
  with has_delim_at[of s] have "\<not> at_delim s"
    by blast
  with Cons.IH[OF n] show ?case by simp
qed

lemma parse_section_no_delim: "\<not> at_delim s \<Longrightarrow> parse_section s = None"
  by (simp add: parse_section_def match_header_def at_delim_def)

lemma parse_loop_tpl_append:
  "parse_loop_tpl (a @ b) docs = parse_loop_tpl b (parse_loop_tpl a docs)"
  by (induction a arbitrary: docs) simp_all

lemma parse_loop_tpl_acc:
  "parse_loop_tpl ss docs = docs @ parse_loop_tpl ss []"
proof (induction ss arbitrary: docs)
  case Nil
  then show ?case by simp
next
  case (Cons s ss)
  show ?case
  proof (cases "parse_section s")
    case None
    with Cons.IH[of docs] show ?thesis by simp
  next
    case (Some d)
    have a: "parse_loop_tpl ss (docs @ [d]) = (docs @ [d]) @ parse_loop_tpl ss []"
      by (rule Cons.IH)
    have b: "parse_loop_tpl ss [d] = [d] @ parse_loop_tpl ss []"
      by (rule Cons.IH)
    have "parse_loop_tpl (s # ss) docs = parse_loop_tpl ss (docs @ [d])"
      using Some by simp
    moreover have "parse_loop_tpl (s # ss) [] = parse_loop_tpl ss [d]"
      using Some by simp
    ultimately show ?thesis
      unfolding a b by simp
  qed
qed

lemma parse_loop_append:
  "parse_loop (a @ b) docs = parse_loop b (parse_loop a docs)"
  by (induction a arbitrary: docs) simp_all

lemma map_of_parse_loop:
  "map_of (parse_loop ss docs) = map_of docs ++ map_of (rev (parse_loop_tpl ss []))"
proof (induction ss arbitrary: docs)
  case Nil
  then show ?case by simp
next
  case (Cons s ss)
  show ?case
  proof (cases "parse_section s")
    case None
    with Cons.IH[of docs] show ?thesis by simp
  next
    case (Some d)
    obtain p body where d: "d = (p, body)"
      by (cases d)
    let ?T = "parse_loop_tpl ss []"
    have t: "parse_loop_tpl (s # ss) [] = (p, body) # ?T"
      using Some d parse_loop_tpl_acc[of ss "[(p, body)]"] by simp
    have "map_of (parse_loop (s # ss) docs) = map_of (parse_loop ss (AList.update p body docs))"
      using Some d by simp
    also have "\<dots> = map_of (AList.update p body docs) ++ map_of (rev ?T)"
      by (rule Cons.IH)
    also have "\<dots> = (map_of docs)(p \<mapsto> body) ++ map_of (rev ?T)"
      by (simp only: update_conv')
    also have "\<dots> = map_of docs ++ map_of (rev ((p, body) # ?T))"
      by simp
    finally show ?thesis
      unfolding t .
  qed
qed

lemma distinct_parse_loop:
  "distinct (map fst docs) \<Longrightarrow> distinct (map fst (parse_loop ss docs))"
  by (induction ss arbitrary: docs) (auto simp: distinct_update split: option.split)

lemma parseLlmsTxt_tpl_Nil: "parseLlmsTxt_tpl [] = []"
  by (simp add: parseLlmsTxt_tpl_def parse_section_def match_header_def)

lemma parseLlmsTxt_Nil: "parseLlmsTxt [] = []"
  by (simp add: parseLlmsTxt_def parse_section_def match_header_def)

lemma parseLlmsTxt_tpl_append:
  assumes "at_delim rest"
  shows "parseLlmsTxt_tpl (pre @ rest) = parseLlmsTxt_tpl pre @ parseLlmsTxt_tpl rest"
proof (cases "pre = []")
  case True
  then show ?thesis by (simp add: parseLlmsTxt_tpl_Nil)
next
  case False
  have "parseLlmsTxt_tpl (pre @ rest) =
      parse_loop_tpl (split_sections rest) (parse_loop_tpl (split_sections pre) [])"
    by (simp only: parseLlmsTxt_tpl_def split_sections_append[OF assms False] parse_loop_tpl_append)
  also have "\<dots> = parse_loop_tpl (split_sections pre) [] @ parse_loop_tpl (split_sections rest) []"
    by (rule parse_loop_tpl_acc)
  finally show ?thesis
    by (simp only: parseLlmsTxt_tpl_def)
qed

lemma map_of_parseLlmsTxt: "map_of (parseLlmsTxt blob) = map_of (rev (parseLlmsTxt_tpl blob))"
  using map_of_parse_loop[of "split_sections blob" "[]"]
  by (simp add: parseLlmsTxt_def parseLlmsTxt_tpl_def)

lemma map_of_parseLlmsTxt_append:
  assumes "at_delim rest"
  shows "map_of (parseLlmsTxt (pre @ rest)) = map_of (parseLlmsTxt pre) ++ map_of (parseLlmsTxt rest)"
  by (simp add: map_of_parseLlmsTxt parseLlmsTxt_tpl_append[OF assms])

lemma distinct_parseLlmsTxt: "distinct (map fst (parseLlmsTxt blob))"
  unfolding parseLlmsTxt_def by (rule distinct_parse_loop) simp

lemma no_delim_parse:
  assumes "\<not> has_delim blob"
  shows "parseLlmsTxt blob = []" and "parseLlmsTxt_tpl blob = []"
proof -
  from assms has_delim_at[of blob] have "\<not> at_delim blob"
    by blast
  then have "parse_section blob = None"
    by (rule parse_section_no_delim)
  then show "parseLlmsTxt blob = []" and "parseLlmsTxt_tpl blob = []"
    by (simp_all add: parseLlmsTxt_def parseLlmsTxt_tpl_def not_has_delim_split[OF assms])
qed

lemma preamble_discarded:
  assumes "at_delim rest" and "\<not> has_delim pre"
  shows "parseLlmsTxt (pre @ rest) = parseLlmsTxt rest"
    and "parseLlmsTxt_tpl (pre @ rest) = parseLlmsTxt_tpl rest"
proof -
  show "parseLlmsTxt_tpl (pre @ rest) = parseLlmsTxt_tpl rest"
    by (simp add: parseLlmsTxt_tpl_append[OF assms(1)] no_delim_parse(2)[OF assms(2)])
  show "parseLlmsTxt (pre @ rest) = parseLlmsTxt rest"
  proof (cases "pre = []")
    case True
    then show ?thesis by simp
  next
    case False
    have "parseLlmsTxt (pre @ rest) = parse_loop (split_sections rest) (parseLlmsTxt pre)"
      by (simp only: parseLlmsTxt_def split_sections_append[OF assms(1) False] parse_loop_append)
    also have "parseLlmsTxt pre = []"
      by (rule no_delim_parse(1)[OF assms(2)])
    finally show ?thesis
      by (simp only: parseLlmsTxt_def)
  qed
qed

lemma trim_skip_newline:
  "trim (if prefix [CHR 0x0A] u then drop 1 u else u) = trim u"
  by (cases u) (auto simp: trim_def is_space_def)

lemma takeWhile_path:
  assumes "CHR ''='' \<notin> set p"
  shows "takeWhile (\<lambda>c. c \<noteq> CHR ''='') (p @ CHR ''='' # t) = p"
    and "dropWhile (\<lambda>c. c \<noteq> CHR ''='') (p @ CHR ''='' # t) = CHR ''='' # t"
  using assms by (induction p) auto

lemma parse_section_header:
  assumes "p \<noteq> []" and "CHR ''='' \<notin> set p"
  shows "parse_section (''===/'' @ p @ ''==='' @ body) =
     (if trim body = [] then None else Some (p, trim body))"
proof -
  have m: "match_header (''===/'' @ p @ ''==='' @ body) = Some p"
    using assms takeWhile_path[OF assms(2), of "''=='' @ body"]
    by (simp add: match_header_def)
  have "CHR ''='' \<notin> set (CHR ''/'' # p)"
    using assms(2) by simp
  from takeWhile_path[OF this, of "''=='' @ body"]
  have s: "strip_header (''===/'' @ p @ ''==='' @ body) =
      (if prefix [CHR 0x0A] body then drop 1 body else body)"
    by (simp add: strip_header_def)
  show ?thesis
    unfolding parse_section_def m s trim_skip_newline by (simp add: Let_def)
qed

lemma has_delim_path:
  assumes "CHR ''='' \<notin> set p"
  shows "has_delim (p @ t) = has_delim t"
  using assms
proof (induction p)
  case Nil
  then show ?case by simp
next
  case (Cons a p)
  then have "\<not> at_delim (a # p @ t)"
    by (auto simp: at_delim_def)
  with Cons show ?case by simp
qed

lemma single_section_split:
  assumes "CHR ''='' \<notin> set p" and "\<not> has_delim (''==='' @ body)"
  shows "split_sections (''===/'' @ p @ ''==='' @ body) = [''===/'' @ p @ ''==='' @ body]"
proof -
  let ?tl = "p @ ''==='' @ body"
  have t: "\<not> has_delim ?tl"
    using has_delim_path[OF assms(1), of "''==='' @ body"] assms(2) by simp
  have a: "\<not> has_delim (CHR ''/'' # ?tl)"
    using t by (simp add: at_delim_def)
  have b: "\<not> has_delim (CHR ''='' # CHR ''/'' # ?tl)"
    using a by (simp add: at_delim_def)
  have c: "\<not> has_delim (CHR ''='' # CHR ''='' # CHR ''/'' # ?tl)"
    using b by (simp add: at_delim_def)
  have d: "\<not> at_delim (CHR ''='' # CHR ''='' # CHR ''/'' # ?tl)"
    by (simp add: at_delim_def)
  from not_has_delim_split[OF c] d show ?thesis
    by simp
qed

lemma single_section:
  assumes "p \<noteq> []" and "CHR ''='' \<notin> set p" and "\<not> has_delim (''==='' @ body)"
  shows "parseLlmsTxt_tpl (''===/'' @ p @ ''==='' @ body) =
           (if trim body = [] then [] else [(p, trim body)])"
    and "parseLlmsTxt (''===/'' @ p @ ''==='' @ body) =
           (if trim body = [] then [] else [(p, trim body)])"
  unfolding parseLlmsTxt_tpl_def parseLlmsTxt_def single_section_split[OF assms(2,3)]
  using parse_section_header[OF assms(1,2), of body] by simp_all

lemma map_of_rev_last:
  assumes "p \<notin> fst ` set ys"
  shows "map_of (rev (xs @ (p, b) # ys)) p = Some b"
proof -
  from assms have "map_of (rev ys) p = None"
    by (simp add: map_of_eq_None_iff)
  then show ?thesis
    by (simp add: map_add_def)
qed

text \<open>
  C4, the claim as it is written, fails: a delimiter in the middle of a line starts
  a new section. Here \<open>===/b===\<close> follows \<open>foo \<close> on its line, and the parser returns
  the two documents \<open>a\<close> and \<open>b\<close>.
\<close>

theorem delimiter_inside_a_line:
  "parseLlmsTxt ''===/a===\<newline>foo ===/b===\<newline>bar'' = [(''a'', ''foo''), (''b'', ''bar'')]
   \<and> parseLlmsTxt_tpl ''===/a===\<newline>foo ===/b===\<newline>bar'' = [(''a'', ''foo''), (''b'', ''bar'')]"
  by code_simp

text \<open>
  C4, amended. The parser cuts the blob in front of every \<open>===/\<close>, wherever in a line
  it stands: parsing a blob up to a delimiter and from it on gives the documents of
  the first part followed by (in the xAI script: overridden by) those of the second.
  The text in front of the first delimiter is discarded, and a blob without
  delimiter gives no document and no error. A section \<open>===/<path>===\<close> followed by a
  body without delimiter gives the path with the trimmed body, and nothing when the
  trimmed body is empty.
\<close>

theorem sections_split_at_every_delimiter:
  "(\<not> has_delim blob \<longrightarrow> parseLlmsTxt blob = [] \<and> parseLlmsTxt_tpl blob = [])
   \<and> (at_delim rest \<longrightarrow>
        parseLlmsTxt_tpl (pre @ rest) = parseLlmsTxt_tpl pre @ parseLlmsTxt_tpl rest
        \<and> map_of (parseLlmsTxt (pre @ rest)) =
            map_of (parseLlmsTxt pre) ++ map_of (parseLlmsTxt rest))
   \<and> (at_delim rest \<and> \<not> has_delim pre \<longrightarrow>
        parseLlmsTxt (pre @ rest) = parseLlmsTxt rest
        \<and> parseLlmsTxt_tpl (pre @ rest) = parseLlmsTxt_tpl rest)
   \<and> (p \<noteq> [] \<and> CHR ''='' \<notin> set p \<and> \<not> has_delim (''==='' @ body) \<longrightarrow>
        parseLlmsTxt (''===/'' @ p @ ''==='' @ body) =
          (if trim body = [] then [] else [(p, trim body)])
        \<and> parseLlmsTxt_tpl (''===/'' @ p @ ''==='' @ body) =
          (if trim body = [] then [] else [(p, trim body)]))"
  using no_delim_parse parseLlmsTxt_tpl_append map_of_parseLlmsTxt_append preamble_discarded
    single_section
  by blast

theorem sections_split_at_every_delimiter_witness:
  "\<not> has_delim ''plain text''
   \<and> parseLlmsTxt ''plain text'' = []
   \<and> at_delim ''===/b===\<newline>bar''
   \<and> parseLlmsTxt_tpl (''===/a===\<newline>foo '' @ ''===/b===\<newline>bar'') =
       [(''a'', ''foo'')] @ [(''b'', ''bar'')]
   \<and> \<not> has_delim ''intro ''
   \<and> parseLlmsTxt (''intro '' @ ''===/b===\<newline>bar'') = [(''b'', ''bar'')]
   \<and> parseLlmsTxt (''===/'' @ ''a'' @ ''==='' @ ''\<newline> foo '') = [(''a'', ''foo'')]"
proof -
  have h1: "\<not> has_delim ''plain text''"
    by code_simp
  have h2: "at_delim ''===/b===\<newline>bar''"
    by code_simp
  have h3: "\<not> has_delim ''intro ''"
    by code_simp
  have h4: "''a'' \<noteq> [] \<and> CHR ''='' \<notin> set ''a'' \<and> \<not> has_delim (''==='' @ ''\<newline> foo '')"
    by code_simp
  have e1: "parseLlmsTxt_tpl ''===/a===\<newline>foo '' = [(''a'', ''foo'')]"
    by code_simp
  have e2: "parseLlmsTxt_tpl ''===/b===\<newline>bar'' = [(''b'', ''bar'')]"
    by code_simp
  have e3: "parseLlmsTxt ''===/b===\<newline>bar'' = [(''b'', ''bar'')]"
    by code_simp
  have e4: "trim ''\<newline> foo '' = ''foo''"
    by code_simp
  note a = sections_split_at_every_delimiter[where blob = "''plain text''"
      and rest = "''===/b===\<newline>bar''" and pre = "''===/a===\<newline>foo ''" and p = "''a''"
      and body = "''\<newline> foo ''"]
  note b = sections_split_at_every_delimiter[where blob = "''plain text''"
      and rest = "''===/b===\<newline>bar''" and pre = "''intro ''" and p = "''a''"
      and body = "''\<newline> foo ''"]
  from a h1 have c1: "parseLlmsTxt ''plain text'' = []"
    by blast
  from a h2 have c2: "parseLlmsTxt_tpl (''===/a===\<newline>foo '' @ ''===/b===\<newline>bar'') =
      parseLlmsTxt_tpl ''===/a===\<newline>foo '' @ parseLlmsTxt_tpl ''===/b===\<newline>bar''"
    by blast
  from b h2 h3 have c3: "parseLlmsTxt (''intro '' @ ''===/b===\<newline>bar'') =
      parseLlmsTxt ''===/b===\<newline>bar''"
    by blast
  from a h4 have c4: "parseLlmsTxt (''===/'' @ ''a'' @ ''==='' @ ''\<newline> foo '') =
      (if trim ''\<newline> foo '' = [] then [] else [(''a'', trim ''\<newline> foo '')])"
    by blast
  from c4 have c5: "parseLlmsTxt (''===/'' @ ''a'' @ ''==='' @ ''\<newline> foo '') = [(''a'', ''foo'')]"
    unfolding e4 by simp
  from h1 h2 h3 c1 c2 c3 c5 show ?thesis
    unfolding e1 e2 e3 by blast
qed

text \<open>
  C5, the claim as it is written, fails for the parser of the llms.txt templates,
  which returns an array: it keeps both sections of a path that heads two.
\<close>

theorem template_parser_keeps_duplicates:
  "parseLlmsTxt_tpl ''===/a===\<newline>1\<newline>===/a===\<newline>2'' = [(''a'', ''1''), (''a'', ''2'')]"
  by code_simp

text \<open>
  C5, amended. The parser of the xAI script, which returns a \<open>Map\<close>, has one entry for
  every path, and binds a path to the body of the last section that it heads: the
  mapping is the array of the template parser read from its end, so a path that
  heads several sections is bound to the body of the last of them. Parsing
  \<open>===/a===\<close>, \<open>1\<close>, \<open>===/a===\<close>, \<open>2\<close> gives the one entry \<open>a\<close> with the body \<open>2\<close>. The
  parser of the templates keeps every section, in order.
\<close>

theorem duplicate_path_last_wins:
  "distinct (map fst (parseLlmsTxt blob))
   \<and> map_of (parseLlmsTxt blob) = map_of (rev (parseLlmsTxt_tpl blob))
   \<and> (parseLlmsTxt_tpl blob = xs @ (p, b) # ys \<and> p \<notin> fst ` set ys \<longrightarrow>
        map_of (parseLlmsTxt blob) p = Some b)
   \<and> parseLlmsTxt ''===/a===\<newline>1\<newline>===/a===\<newline>2'' = [(''a'', ''2'')]"
proof -
  have "parseLlmsTxt ''===/a===\<newline>1\<newline>===/a===\<newline>2'' = [(''a'', ''2'')]"
    by code_simp
  moreover have "parseLlmsTxt_tpl blob = xs @ (p, b) # ys \<and> p \<notin> fst ` set ys \<longrightarrow>
      map_of (parseLlmsTxt blob) p = Some b"
    using map_of_rev_last[of p ys xs b] by (simp add: map_of_parseLlmsTxt)
  ultimately show ?thesis
    using distinct_parseLlmsTxt map_of_parseLlmsTxt by blast
qed

theorem duplicate_path_last_wins_witness:
  "parseLlmsTxt_tpl ''===/a===\<newline>1\<newline>===/a===\<newline>2'' = [(''a'', ''1'')] @ (''a'', ''2'') # []
   \<and> ''a'' \<notin> fst ` set ([] :: (string \<times> string) list)
   \<and> map_of (parseLlmsTxt ''===/a===\<newline>1\<newline>===/a===\<newline>2'') ''a'' = Some ''2''
   \<and> distinct (map fst (parseLlmsTxt ''===/a===\<newline>1\<newline>===/a===\<newline>2''))"
proof -
  have h: "parseLlmsTxt_tpl ''===/a===\<newline>1\<newline>===/a===\<newline>2'' = [(''a'', ''1'')] @ (''a'', ''2'') # []"
    by code_simp
  have k: "''a'' \<notin> fst ` set ([] :: (string \<times> string) list)"
    by simp
  from duplicate_path_last_wins[where blob = "''===/a===\<newline>1\<newline>===/a===\<newline>2''"
      and xs = "[(''a'', ''1'')]" and p = "''a''" and b = "''2''" and ys = "[]"] h k
  show ?thesis by blast
qed

section \<open>MarkdownConverter\<close>

lemma codeBlocks_no_code:
  assumes "nodeName nd = ''PRE''" and "querySelector_code nd = None"
  shows "codeBlocks content nd = fence [] (trim (textContent nd))"
  using assms by (simp add: codeBlocks_def code_lang_def code_text_def)

lemma codeBlocks_class:
  assumes "nodeName nd = ''PRE''" and "querySelector_code nd = Some cd"
    and "match_language (className cd) = Some l"
  shows "codeBlocks content nd =
     fence l (trim (if textContent cd \<noteq> [] then textContent cd else textContent nd))"
  using assms by (simp add: codeBlocks_def code_lang_def code_text_def)

lemma codeBlocks_data_lang:
  assumes "nodeName nd = ''PRE''" and "querySelector_code nd = Some cd"
    and "match_language (className cd) = None"
  shows "codeBlocks content nd =
     fence (case getAttribute cd ''data-lang'' of None \<Rightarrow> [] | Some v \<Rightarrow> v)
       (trim (if textContent cd \<noteq> [] then textContent cd else textContent nd))"
  using assms by (simp add: codeBlocks_def code_lang_def code_text_def)

lemma match_language_class:
  assumes "w \<noteq> []" and "list_all is_word_char w"
  shows "match_language (''language-'' @ w) = Some w"
proof -
  from assms(2) have tw: "takeWhile is_word_char w = w"
    by (simp add: list_all_iff)
  from assms(1) show ?thesis
    by (simp add: tw)
qed

text \<open>
  C9, the claim as it is written, fails: when the \<open>code\<close> element is there and its
  text is empty, the body of the block is the text of the \<open>pre\<close> element, not the
  (empty) text of the \<open>code\<close> element.
\<close>

theorem empty_code_falls_back_to_pre:
  "querySelector_code pre_empty_code = Some (Element ''CODE'' [] [])
   \<and> codeBlocks [] pre_empty_code = fence [] ''abc''
   \<and> codeBlocks [] pre_empty_code \<noteq> fence [] (trim (textContent (Element ''CODE'' [] [])))"
  by code_simp

text \<open>
  C9, amended. The rule renders every \<open>pre\<close> node as a fenced block. The language
  tag is the word after \<open>language-\<close> in the class of the first \<open>code\<close> element in it,
  else the \<open>data-lang\<close> attribute of that element, else empty. The body is the trimmed
  text of that \<open>code\<close> element when the text is not empty, and otherwise (no \<open>code\<close>
  element, or one with an empty text) the trimmed text of the \<open>pre\<close> itself. A class
  \<open>language-xxx\<close> of word characters gives the tag \<open>xxx\<close>;
  \<open><pre><code class="language-python">x = 1</code></pre>\<close> becomes the block that opens
  with the fence \<open>python\<close> and holds \<open>x = 1\<close>, and a \<open>pre\<close> without \<open>code\<close> element a
  block with an empty tag.
\<close>

theorem codeBlocks_fenced_block:
  "(nodeName nd = ''PRE'' \<and> querySelector_code nd = None \<longrightarrow>
      codeBlocks content nd = fence [] (trim (textContent nd)))
   \<and> (nodeName nd = ''PRE'' \<and> querySelector_code nd = Some cd
        \<and> match_language (className cd) = Some l \<longrightarrow>
      codeBlocks content nd =
        fence l (trim (if textContent cd \<noteq> [] then textContent cd else textContent nd)))
   \<and> (nodeName nd = ''PRE'' \<and> querySelector_code nd = Some cd
        \<and> match_language (className cd) = None \<longrightarrow>
      codeBlocks content nd =
        fence (case getAttribute cd ''data-lang'' of None \<Rightarrow> [] | Some v \<Rightarrow> v)
          (trim (if textContent cd \<noteq> [] then textContent cd else textContent nd)))
   \<and> (w \<noteq> [] \<and> list_all is_word_char w \<longrightarrow> match_language (''language-'' @ w) = Some w)
   \<and> codeBlocks content pre_python = ''\<newline>```python\<newline>x = 1\<newline>```\<newline>''"
proof -
  have "codeBlocks content pre_python = ''\<newline>```python\<newline>x = 1\<newline>```\<newline>''"
    by code_simp
  then show ?thesis
    using codeBlocks_no_code codeBlocks_class codeBlocks_data_lang match_language_class
    by blast
qed

theorem codeBlocks_fenced_block_witness:
  "nodeName pre_plain = ''PRE'' \<and> querySelector_code pre_plain = None
   \<and> codeBlocks [] pre_plain = fence [] ''plain text''
   \<and> querySelector_code pre_python =
        Some (Element ''CODE'' [(''class'', ''language-python'')] [TextNode ''x = 1''])
   \<and> codeBlocks [] pre_python = fence ''python'' ''x = 1''
   \<and> querySelector_code pre_empty_code = Some (Element ''CODE'' [] [])
   \<and> codeBlocks [] pre_empty_code = fence [] ''abc''
   \<and> match_language (''language-'' @ ''python'') = Some ''python''"
proof -
  let ?py = "Element ''CODE'' [(''class'', ''language-python'')] [TextNode ''x = 1'']"
  let ?em = "Element ''CODE'' [] []"
  have p1: "nodeName pre_plain = ''PRE'' \<and> querySelector_code pre_plain = None"
    by code_simp
  have p2: "trim (textContent pre_plain) = ''plain text''"
    by code_simp
  have q1: "nodeName pre_python = ''PRE'' \<and> querySelector_code pre_python = Some ?py
      \<and> match_language (className ?py) = Some ''python''"
    by code_simp
  have q2: "trim (if textContent ?py \<noteq> [] then textContent ?py else textContent pre_python) = ''x = 1''"
    by code_simp
  have r1: "nodeName pre_empty_code = ''PRE'' \<and> querySelector_code pre_empty_code = Some ?em
      \<and> match_language (className ?em) = None"
    by code_simp
  have r2: "(case getAttribute ?em ''data-lang'' of None \<Rightarrow> [] | Some v \<Rightarrow> v) = []"
    by code_simp
  have r3: "trim (if textContent ?em \<noteq> [] then textContent ?em else textContent pre_empty_code) = ''abc''"
    by code_simp
  have w1: "''python'' \<noteq> [] \<and> list_all is_word_char ''python''"
    by code_simp
  from codeBlocks_fenced_block[where nd = pre_plain and content = "[]"] p1
  have a: "codeBlocks [] pre_plain = fence [] (trim (textContent pre_plain))"
    by blast
  from codeBlocks_fenced_block[where nd = pre_python and cd = ?py and l = "''python''"
      and content = "[]"] q1
  have b: "codeBlocks [] pre_python =
      fence ''python'' (trim (if textContent ?py \<noteq> [] then textContent ?py else textContent pre_python))"
    by blast
  from codeBlocks_fenced_block[where nd = pre_empty_code and cd = ?em and content = "[]"] r1
  have c: "codeBlocks [] pre_empty_code =
      fence (case getAttribute ?em ''data-lang'' of None \<Rightarrow> [] | Some v \<Rightarrow> v)
        (trim (if textContent ?em \<noteq> [] then textContent ?em else textContent pre_empty_code))"
    by blast
  from codeBlocks_fenced_block[where w = "''python''"] w1
  have d: "match_language (''language-'' @ ''python'') = Some ''python''"
    by blast
  from a b c d p1 q1 r1 show ?thesis
    unfolding p2 q2 r2 r3 by blast
qed

end
